theory Spec2Isabelle
  imports Complex_Main "HOL-Library.Word"
begin

section \<open>JavaScript values\<close>

text \<open>
  A JavaScript string is a sequence of UTF-16 code units. The bullet of the ingredient
  splitter is the single code unit U+2022, so code units (not bytes) are the characters
  of the model. \<open>ascii\<close> embeds a literal of the source.
\<close>

type_synonym jschar = "16 word"
type_synonym jsstring = "jschar list"

definition ascii :: "string \<Rightarrow> jsstring" where
  "ascii s = map (\<lambda>c. of_nat (of_char c)) s"

text \<open>
  A number is NaN, an infinity, or a finite value. Finite values are rationals: every
  double is one, so a statement about all rationals covers all doubles.
\<close>

datatype jsnum = NaN | NegInf | PosInf | Fin rat

text \<open>
  The values \<open>JSON.parse\<close> produces, and \<open>undefined\<close>, which a missing property reads as.
  An object is the list of its own properties; the first entry of a name is the property.
\<close>

datatype jsval =
    JUndefined
  | JNull
  | JBool bool
  | JNum jsnum
  | JStr jsstring
  | JArr "jsval list"
  | JObj "(jsstring \<times> jsval) list"

text \<open>\<open>!v\<close> is \<open>\<not> truthy v\<close>: undefined, null, false, 0, NaN and the empty string are falsy.\<close>

fun truthy :: "jsval \<Rightarrow> bool" where
  "truthy JUndefined = False"
| "truthy JNull = False"
| "truthy (JBool b) = b"
| "truthy (JNum n) = (n \<noteq> NaN \<and> n \<noteq> Fin 0)"
| "truthy (JStr s) = (s \<noteq> [])"
| "truthy (JArr xs) = True"
| "truthy (JObj kvs) = True"

text \<open>\<open>typeof v === "object"\<close>: null, arrays and objects.\<close>

fun typeof_object :: "jsval \<Rightarrow> bool" where
  "typeof_object JNull = True"
| "typeof_object (JArr xs) = True"
| "typeof_object (JObj kvs) = True"
| "typeof_object v = False"

text \<open>
  \<open>v?.k\<close> for the property names the source reads (none of them is a property of a
  string, an array or a prototype): the own property of an object, else undefined.
\<close>

fun get_prop :: "jsval \<Rightarrow> jsstring \<Rightarrow> jsval" where
  "get_prop (JObj kvs) k = (case map_of kvs k of Some v \<Rightarrow> v | None \<Rightarrow> JUndefined)"
| "get_prop v k = JUndefined"

text \<open>\<open>v?.[0]\<close>: first element of an array, first code unit of a string, property "0" of an object.\<close>

fun index0 :: "jsval \<Rightarrow> jsval" where
  "index0 (JArr []) = JUndefined"
| "index0 (JArr (x # xs)) = x"
| "index0 (JStr []) = JUndefined"
| "index0 (JStr (c # cs)) = JStr [c]"
| "index0 (JObj kvs) = get_prop (JObj kvs) (ascii ''0'')"
| "index0 v = JUndefined"

section \<open>String operations of the platform\<close>

text \<open>
  \<open>String.prototype.trim\<close> removes WhiteSpace and LineTerminator code points from both
  ends; all of them are single code units.
\<close>

definition isWhiteSpace :: "jschar \<Rightarrow> bool" where
  "isWhiteSpace c \<longleftrightarrow> c \<in> set [0x09, 0x0A, 0x0B, 0x0C, 0x0D, 0x20, 0xA0, 0x1680,
     0x2000, 0x2001, 0x2002, 0x2003, 0x2004, 0x2005, 0x2006, 0x2007, 0x2008, 0x2009, 0x200A,
     0x2028, 0x2029, 0x202F, 0x205F, 0x3000, 0xFEFF]"

definition trim :: "jsstring \<Rightarrow> jsstring" where
  "trim s = rev (dropWhile isWhiteSpace (rev (dropWhile isWhiteSpace s)))"

text \<open>
  \<open>s.split(/[...]/)\<close> with a character class: the pieces between the matching code
  units, empty pieces kept; the empty string gives one empty piece. The second branch of
  the \<open>case\<close> is never taken, the result of \<open>split_on\<close> has at least one piece.
\<close>

fun split_on :: "('a \<Rightarrow> bool) \<Rightarrow> 'a list \<Rightarrow> 'a list list" where
  "split_on P [] = [[]]"
| "split_on P (c # cs) =
     (if P c then [] # split_on P cs
      else (case split_on P cs of
              seg # segs \<Rightarrow> (c # seg) # segs
            | [] \<Rightarrow> [[c]]))"

text \<open>\<open>s.endsWith(t)\<close> and \<open>s.includes(t)\<close>.\<close>

definition endsWith :: "jsstring \<Rightarrow> jsstring \<Rightarrow> bool" where
  "endsWith s t \<longleftrightarrow> length t \<le> length s \<and> drop (length s - length t) s = t"

fun includes_str :: "jsstring \<Rightarrow> jsstring \<Rightarrow> bool" where
  "includes_str [] t = (t = [])"
| "includes_str (c # cs) t = (take (length t) (c # cs) = t \<or> includes_str cs t)"

text \<open>
  \<open>String.prototype.toLowerCase\<close> applies the Unicode case tables of the engine, which
  are not part of the repository: the function is a parameter \<open>lower\<close> of every
  definition that lowercases. What the proofs use of it is collected in
  \<open>toLowerCase_props\<close>: it is the ASCII mapping on ASCII strings, lowercasing twice is
  lowercasing once, and it introduces none of the four separator code units and no white
  space at either end.
\<close>

definition ascii_lower :: "jschar \<Rightarrow> jschar" where
  "ascii_lower c = (if 0x41 \<le> c \<and> c \<le> 0x5A then c + 0x20 else c)"

definition is_separator :: "jschar \<Rightarrow> bool" where
  "is_separator c \<longleftrightarrow> c = 0x0A \<or> c = 0x2022 \<or> c = 0x3B \<or> c = 0x2C"

definition toLowerCase_props :: "(jsstring \<Rightarrow> jsstring) \<Rightarrow> bool" where
  "toLowerCase_props lower \<longleftrightarrow>
     (\<forall>s. (\<forall>c \<in> set s. c < 0x80) \<longrightarrow> lower s = map ascii_lower s) \<and>
     (\<forall>s. lower (lower s) = lower s) \<and>
     (\<forall>s c. c \<in> set (lower s) \<longrightarrow> is_separator c \<longrightarrow> c \<in> set s) \<and>
     (\<forall>s. trim s = s \<longrightarrow> trim (lower s) = lower s)"

section \<open>Numbers of the platform\<close>

text \<open>
  \<open>x.toFixed(3)\<close> for \<open>0 \<le> x \<le> 1\<close> prints \<open>n / 1000\<close> for the integer \<open>n\<close> nearest to
  \<open>1000 x\<close>, the larger one on a tie. \<open>Number.parseFloat\<close> reads the decimal back as
  the nearest double; that rounding is the parameter \<open>rd\<close>, and \<open>double_rounding\<close>
  collects what the proofs use of it: it is monotone, exact at 0 and 1, and within
  \<open>1/2000\<close> of its argument on the unit interval. The literal \<open>0.2\<close> of the source is
  \<open>rd (1/5)\<close>.
\<close>

definition toFixed3 :: "rat \<Rightarrow> rat" where
  "toFixed3 x = of_int \<lfloor>x * 1000 + 1 / 2\<rfloor> / 1000"

definition double_rounding :: "(rat \<Rightarrow> rat) \<Rightarrow> bool" where
  "double_rounding rd \<longleftrightarrow>
     (\<forall>a b. a \<le> b \<longrightarrow> rd a \<le> rd b) \<and> rd 0 = 0 \<and> rd 1 = 1 \<and>
     (\<forall>a. 0 \<le> a \<longrightarrow> a \<le> 1 \<longrightarrow> \<bar>rd a - a\<bar> < 1 / 2000)"

section \<open>agent/ocr.ts: the normalizers of the extraction result\<close>

datatype domain_guess = Food | Drug | Cosmetic | Mixed

record sections =
  warnings :: "jsstring option"
  claims :: "jsstring list option"

record OCRResult =
  domain_guess :: domain_guess
  ingredients :: "jsstring list"
  sections :: sections
  confidence :: rat
  language :: jsstring

definition DEFAULT_RESULT :: OCRResult where
  "DEFAULT_RESULT = \<lparr> domain_guess = Mixed, ingredients = [],
     sections = \<lparr> warnings = None, claims = None \<rparr>, confidence = 0,
     language = ascii ''en'' \<rparr>"

text \<open>\<open>Array.from(new Set(collected))\<close>: a value is appended unless it is already there.\<close>

definition set_add :: "'a list \<Rightarrow> 'a \<Rightarrow> 'a list" where
  "set_add seen x = (if x \<in> set seen then seen else seen @ [x])"

definition array_from_set :: "'a list \<Rightarrow> 'a list" where
  "array_from_set xs = foldl set_add [] xs"

definition is_newline_or_bullet :: "jschar \<Rightarrow> bool" where
  "is_newline_or_bullet c \<longleftrightarrow> c = 0x0A \<or> c = 0x2022"

definition is_semicolon_or_comma :: "jschar \<Rightarrow> bool" where
  "is_semicolon_or_comma c \<longleftrightarrow> c = 0x3B \<or> c = 0x2C"

text \<open>The \<open>splits\<close> of one entry: split, split again, trim and lowercase, drop the empty ones.\<close>

definition splits :: "(jsstring \<Rightarrow> jsstring) \<Rightarrow> jsstring \<Rightarrow> jsstring list" where
  "splits lower entry =
     filter (\<lambda>s. length s > 0)
       (map (\<lambda>s. lower (trim s))
          (concat (map (split_on is_semicolon_or_comma) (split_on is_newline_or_bullet entry))))"

text \<open>The loop over \<open>items\<close>: entries that are not strings are skipped.\<close>

fun collect :: "(jsstring \<Rightarrow> jsstring) \<Rightarrow> jsval list \<Rightarrow> jsstring list" where
  "collect lower [] = []"
| "collect lower (JStr entry # items) = splits lower entry @ collect lower items"
| "collect lower (v # items) = collect lower items"

definition normalizeIngredients :: "(jsstring \<Rightarrow> jsstring) \<Rightarrow> jsval \<Rightarrow> jsstring list" where
  "normalizeIngredients lower raw =
     (if \<not> truthy raw then []
      else let items = (case raw of JArr xs \<Rightarrow> xs | _ \<Rightarrow> [raw])
           in array_from_set (collect lower items))"

text \<open>The filter-and-trim of \<open>claims\<close>.\<close>

fun nonblank_strings :: "jsval list \<Rightarrow> jsstring list" where
  "nonblank_strings [] = []"
| "nonblank_strings (JStr c # cs) =
     (if length (trim c) > 0 then c # nonblank_strings cs else nonblank_strings cs)"
| "nonblank_strings (v # cs) = nonblank_strings cs"

definition normalizeSections :: "jsval \<Rightarrow> sections" where
  "normalizeSections raw =
     (if \<not> truthy raw \<or> \<not> typeof_object raw then \<lparr> warnings = None, claims = None \<rparr>
      else
        \<lparr> warnings =
            (case get_prop raw (ascii ''warnings'') of
               JStr w \<Rightarrow> if trim w \<noteq> [] then Some (trim w) else None
             | _ \<Rightarrow> None),
          claims =
            (case get_prop raw (ascii ''claims'') of
               JArr cs \<Rightarrow>
                 (let kept = map trim (nonblank_strings cs)
                  in if length kept > 0 then Some kept else None)
             | _ \<Rightarrow> None) \<rparr>)"

definition domain_name :: "domain_guess \<Rightarrow> jsstring" where
  "domain_name d = (case d of Food \<Rightarrow> ascii ''food'' | Drug \<Rightarrow> ascii ''drug''
     | Cosmetic \<Rightarrow> ascii ''cosmetic'' | Mixed \<Rightarrow> ascii ''mixed'')"

definition normalizeDomain :: "jsval \<Rightarrow> domain_guess" where
  "normalizeDomain domain =
     (if domain = JStr (ascii ''food'') then Food
      else if domain = JStr (ascii ''drug'') then Drug
      else if domain = JStr (ascii ''cosmetic'') then Cosmetic
      else if domain = JStr (ascii ''mixed'') then Mixed
      else Mixed)"

definition normalizeConfidence :: "(rat \<Rightarrow> rat) \<Rightarrow> jsval \<Rightarrow> rat" where
  "normalizeConfidence rd v =
     (case v of
        JNum NaN \<Rightarrow> 0
      | JNum NegInf \<Rightarrow> 0
      | JNum PosInf \<Rightarrow> 1
      | JNum (Fin x) \<Rightarrow> if x < 0 then 0 else if x > 1 then 1 else rd (toFixed3 x)
      | _ \<Rightarrow> 0)"

text \<open>
  The pattern \<open>/^[a-z]{2,3}(?:-[a-z0-9]{2,8})*$/\<close>. Neither class contains the hyphen, so
  a string matches exactly when its pieces between hyphens are a primary subtag of two or
  three letters followed by subtags of two to eight letters or digits.
\<close>

definition is_az :: "jschar \<Rightarrow> bool" where
  "is_az c \<longleftrightarrow> 0x61 \<le> c \<and> c \<le> 0x7A"

definition is_az09 :: "jschar \<Rightarrow> bool" where
  "is_az09 c \<longleftrightarrow> is_az c \<or> (0x30 \<le> c \<and> c \<le> 0x39)"

definition language_tag :: "jsstring \<Rightarrow> bool" where
  "language_tag s =
     (case split_on (\<lambda>c. c = 0x2D) s of
        [] \<Rightarrow> False
      | p # subtags \<Rightarrow>
          (length p = 2 \<or> length p = 3) \<and> list_all is_az p \<and>
          list_all (\<lambda>q. 2 \<le> length q \<and> length q \<le> 8 \<and> list_all is_az09 q) subtags)"

definition normalizeLanguage :: "(jsstring \<Rightarrow> jsstring) \<Rightarrow> jsval \<Rightarrow> jsstring" where
  "normalizeLanguage lower v =
     (case v of
        JStr s \<Rightarrow>
          (let trimmed = trim s in
           if trimmed = [] then ascii ''en''
           else let l = lower trimmed in if language_tag l then l else ascii ''en'')
      | _ \<Rightarrow> ascii ''en'')"

text \<open>
  The construction of the result in \<open>analyzeLabel\<close> from the parsed JSON \<open>raw\<close>, with the
  cap on the confidence of a result without ingredients.
\<close>

definition result_of_raw ::
  "(jsstring \<Rightarrow> jsstring) \<Rightarrow> (rat \<Rightarrow> rat) \<Rightarrow> jsval \<Rightarrow> OCRResult" where
  "result_of_raw lower rd raw =
     (let result = \<lparr> domain_guess = normalizeDomain (get_prop raw (ascii ''domain_guess'')),
                     ingredients = normalizeIngredients lower (get_prop raw (ascii ''ingredients'')),
                     sections = normalizeSections (get_prop raw (ascii ''sections'')),
                     confidence = normalizeConfidence rd (get_prop raw (ascii ''confidence'')),
                     language = normalizeLanguage lower (get_prop raw (ascii ''language'')) \<rparr>
      in if length (ingredients result) = 0
         then result\<lparr> confidence := min (confidence result) (rd (1 / 5)) \<rparr>
         else result)"

section \<open>agent/explain.ts: the normalizers of the explanation result\<close>

datatype risk_level = Green | Yellow | Red | Unknown

record ExplanationItem =
  name :: jsstring
  fn :: jsstring
  risk_level :: risk_level
  why :: jsstring
  certainty :: rat
  sources :: "jsstring list"

record ExplanationResult =
  summary :: jsstring
  items :: "ExplanationItem list"
  disclaimer :: jsstring

definition DEFAULT_RESULT_explain :: ExplanationResult where
  "DEFAULT_RESULT_explain =
     \<lparr> summary = ascii ''Ingredient explanations unavailable while the language service is offline.'',
       items = [],
       disclaimer = ascii ''This is not medical advice.'' \<rparr>"

definition risk_level_name :: "risk_level \<Rightarrow> jsstring" where
  "risk_level_name r = (case r of Green \<Rightarrow> ascii ''Green'' | Yellow \<Rightarrow> ascii ''Yellow''
     | Red \<Rightarrow> ascii ''Red'' | Unknown \<Rightarrow> ascii ''Unknown'')"

definition normalizeRiskLevel :: "jsval \<Rightarrow> risk_level" where
  "normalizeRiskLevel v =
     (if v = JStr (ascii ''Green'') then Green
      else if v = JStr (ascii ''Yellow'') then Yellow
      else if v = JStr (ascii ''Red'') then Red
      else if v = JStr (ascii ''Unknown'') then Unknown
      else Unknown)"

definition normalizeCertainty :: "(rat \<Rightarrow> rat) \<Rightarrow> jsval \<Rightarrow> rat" where
  "normalizeCertainty rd v =
     (case v of
        JNum NaN \<Rightarrow> 0
      | JNum NegInf \<Rightarrow> 0
      | JNum PosInf \<Rightarrow> 1
      | JNum (Fin x) \<Rightarrow> if x < 0 then 0 else if x > 1 then 1 else rd (toFixed3 x)
      | _ \<Rightarrow> 0)"

text \<open>
  The filter of \<open>sources\<close>: the strings whose trimmed text is not empty, kept as they
  are (no \<open>map\<close> follows this filter).
\<close>

fun source_strings :: "jsval list \<Rightarrow> jsstring list" where
  "source_strings [] = []"
| "source_strings (JStr s # rest) =
     (if length (trim s) > 0 then s # source_strings rest else source_strings rest)"
| "source_strings (v # rest) = source_strings rest"

text \<open>The callback of \<open>map\<close> in \<open>normalizeItems\<close>; \<open>None\<close> is its \<open>undefined\<close>.\<close>

definition item_of_entry :: "(rat \<Rightarrow> rat) \<Rightarrow> jsval \<Rightarrow> ExplanationItem option" where
  "item_of_entry rd entry =
     (if \<not> truthy entry \<or> \<not> typeof_object entry then None
      else Some
        \<lparr> name = (case get_prop entry (ascii ''name'') of JStr s \<Rightarrow> s | _ \<Rightarrow> ascii ''Unknown''),
          fn = (case get_prop entry (ascii ''function'') of JStr s \<Rightarrow> s | _ \<Rightarrow> []),
          risk_level = normalizeRiskLevel (get_prop entry (ascii ''risk_level'')),
          why = (case get_prop entry (ascii ''why'') of JStr s \<Rightarrow> s | _ \<Rightarrow> []),
          certainty = normalizeCertainty rd (get_prop entry (ascii ''certainty'')),
          sources = (case get_prop entry (ascii ''sources'') of
                       JArr xs \<Rightarrow> source_strings xs | _ \<Rightarrow> []) \<rparr>)"

definition normalizeItems :: "(rat \<Rightarrow> rat) \<Rightarrow> jsval \<Rightarrow> ExplanationItem list" where
  "normalizeItems rd raw =
     (case raw of
        JArr entries \<Rightarrow> List.map_filter (item_of_entry rd) entries
      | _ \<Rightarrow> [])"

section \<open>HTTP\<close>

text \<open>
  A response as the clients read it: the status, the content type header, and what
  \<open>text()\<close> and \<open>json()\<close> resolve to (\<open>None\<close> when they reject). \<open>response.ok\<close> is a
  status from 200 to 299.
\<close>

record response =
  status :: nat
  content_type :: "jsstring option"
  body_text :: "jsstring option"
  body_json :: "jsval option"

definition ok :: "response \<Rightarrow> bool" where
  "ok r \<longleftrightarrow> 200 \<le> status r \<and> status r \<le> 299"

text \<open>\<open>await fetch(...)\<close> resolves to a response, rejects, or is aborted by its signal.\<close>

datatype fetch_outcome = Rejected | Aborted | Resolved response

text \<open>
  What tells the requests of one call to the chat endpoint apart: the model and the
  response format. Within one call no two requests are equal, so the network is a
  function from requests to outcomes; each client also returns the requests it sent.
\<close>

datatype response_format = JsonSchema | JsonObject

record request =
  model :: jsstring
  format :: response_format

datatype error =
    InvalidInput
  | ApiError nat jsstring
  | FetchFailed
  | BodyUnreadable
  | TypeError
  | URIError

text \<open>\<open>await response.text().catch(() => "")\<close>.\<close>

definition error_text :: "response \<Rightarrow> jsstring" where
  "error_text r = (case body_text r of Some t \<Rightarrow> t | None \<Rightarrow> [])"

text \<open>The environment variables read by the clients; \<open>None\<close> is an unset variable.\<close>

record env =
  INTERFAZE_API_KEY :: "jsstring option"
  INTERFAZE_OCR_MODEL :: "jsstring option"
  INTERFAZE_EXPLAIN_MODEL :: "jsstring option"
  NODE_ENV :: "jsstring option"
  WEB_FETCH_ENABLED :: "jsstring option"
  OFF_FETCH_LIMIT :: "jsstring option"

text \<open>\<open>process.env.X || d\<close>.\<close>

definition env_or :: "jsstring option \<Rightarrow> jsstring \<Rightarrow> jsstring" where
  "env_or v d = (case v of Some s \<Rightarrow> if s \<noteq> [] then s else d | None \<Rightarrow> d)"

section \<open>agent/ocr.ts: the extraction client\<close>

fun chunk_text :: "jsval list \<Rightarrow> jsstring" where
  "chunk_text [] = []"
| "chunk_text (chunk # rest) =
     (case get_prop chunk (ascii ''output_text'') of
        JStr s \<Rightarrow> s
      | _ \<Rightarrow> (case get_prop chunk (ascii ''text'') of
                JStr s \<Rightarrow> s
              | _ \<Rightarrow> chunk_text rest))"

definition extractMessageContent :: "jsval \<Rightarrow> jsstring" where
  "extractMessageContent payload =
     (let message = get_prop (index0 (get_prop payload (ascii ''choices''))) (ascii ''message'')
      in if \<not> truthy message then []
         else (case get_prop message (ascii ''content'') of
                 JStr s \<Rightarrow> s
               | JArr chunks \<Rightarrow> chunk_text chunks
               | _ \<Rightarrow> []))"

text \<open>
  From the response that ends the attempts to the result: a failure status is the
  terminal error with the status and the body text; an empty or unparseable content is
  the default result. \<open>JSON.parse\<close> is the parameter \<open>parse\<close> (\<open>None\<close> when it throws).
\<close>

definition ocr_result_of_response ::
  "(jsstring \<Rightarrow> jsstring) \<Rightarrow> (rat \<Rightarrow> rat) \<Rightarrow> (jsstring \<Rightarrow> jsval option) \<Rightarrow> response
     \<Rightarrow> error + OCRResult" where
  "ocr_result_of_response lower rd parse r =
     (if \<not> ok r then Inl (ApiError (status r) (error_text r))
      else (case body_json r of
              None \<Rightarrow> Inl BodyUnreadable
            | Some payload \<Rightarrow>
                (let content = extractMessageContent payload
                 in if content = [] then Inr DEFAULT_RESULT
                    else (case parse content of
                            None \<Rightarrow> Inr DEFAULT_RESULT
                          | Some raw \<Rightarrow> Inr (result_of_raw lower rd raw)))))"

definition analyzeLabel ::
  "(jsstring \<Rightarrow> jsstring) \<Rightarrow> (rat \<Rightarrow> rat) \<Rightarrow> (jsstring \<Rightarrow> jsval option) \<Rightarrow> env
     \<Rightarrow> (request \<Rightarrow> fetch_outcome) \<Rightarrow> jsval \<Rightarrow> (error + OCRResult) \<times> request list" where
  "analyzeLabel lower rd parse e fetch image_url =
     (if \<not> truthy image_url \<or> (case image_url of JStr u \<Rightarrow> False | _ \<Rightarrow> True)
      then (Inl InvalidInput, [])
      else if env_or (INTERFAZE_API_KEY e) [] = [] then (Inr DEFAULT_RESULT, [])
      else
        (let m = env_or (INTERFAZE_OCR_MODEL e) (ascii ''interfaze-beta'');
             schemaBody = \<lparr> model = m, format = JsonSchema \<rparr>
         in case fetch schemaBody of
              Resolved first \<Rightarrow>
                if \<not> ok first \<and> (status first = 400 \<or> status first = 422) then
                  (let jsonObjectBody = \<lparr> model = m, format = JsonObject \<rparr>
                   in case fetch jsonObjectBody of
                        Resolved second \<Rightarrow>
                          (ocr_result_of_response lower rd parse second,
                           [schemaBody, jsonObjectBody])
                      | _ \<Rightarrow> (Inl FetchFailed, [schemaBody, jsonObjectBody]))
                else (ocr_result_of_response lower rd parse first, [schemaBody])
            | _ \<Rightarrow> (Inl FetchFailed, [schemaBody])))"

section \<open>tools/fetch_json.ts: the domain lookup fetch\<close>

definition WHITELIST :: "jsstring list" where
  "WHITELIST = [ascii ''openfoodfacts.org'', ascii ''openbeautyfacts.org'']"

text \<open>
  \<open>new URL(url).hostname\<close> is the parameter \<open>hostname\<close> (\<open>None\<close> when the constructor
  throws).
\<close>

definition isWhitelisted :: "(jsstring \<Rightarrow> jsstring option) \<Rightarrow> jsstring \<Rightarrow> bool" where
  "isWhitelisted hostname url =
     (case hostname url of
        None \<Rightarrow> False
      | Some h \<Rightarrow> list_ex (\<lambda>domain. h = domain \<or> endsWith h (ascii ''.'' @ domain)) WHITELIST)"

datatype fetch_json_error =
    UrlNotAllowed jsstring
  | HttpStatus nat
  | ResponseNotJson
  | TimedOut
  | RequestFailed

type_synonym headers = "(jsstring \<times> jsstring) list option"

text \<open>
  The result and the requests sent. The six-second timer aborts the request, which is
  the outcome \<open>Aborted\<close> of the network.
\<close>

definition fetch_json ::
  "(jsstring \<Rightarrow> jsstring option) \<Rightarrow> (jsstring \<Rightarrow> headers \<Rightarrow> fetch_outcome) \<Rightarrow> jsstring \<Rightarrow> headers
     \<Rightarrow> (fetch_json_error + jsval) \<times> (jsstring \<times> headers) list" where
  "fetch_json hostname fetch url hdrs =
     (if \<not> isWhitelisted hostname url then (Inl (UrlNotAllowed url), [])
      else
        (case fetch url hdrs of
           Resolved r \<Rightarrow>
             if \<not> ok r then Inl (HttpStatus (status r))
             else (case content_type r of
                     None \<Rightarrow> Inl ResponseNotJson
                   | Some contentType \<Rightarrow>
                       if contentType = [] \<or> \<not> includes_str contentType (ascii ''application/json'')
                       then Inl ResponseNotJson
                       else (case body_json r of
                               None \<Rightarrow> Inl RequestFailed
                             | Some body \<Rightarrow> Inr body))
         | Aborted \<Rightarrow> Inl TimedOut
         | Rejected \<Rightarrow> Inl RequestFailed,
         [(url, hdrs)]))"

section \<open>agent/explain.ts: the explanation client\<close>

text \<open>
  The steps before the requests. Their results (the glossary matches, the risk matches and
  the external records) go into the text of the user message, which is the same in every
  request; what the model keeps of them is whether they throw, since an exception there
  ends the call before any request to the chat endpoint. The platform and the local files
  are collected in \<open>local_world\<close>: what \<open>readJsonFile\<close> resolved to for the glossary and for
  the rules (the parsed file, or the fallback \<open>[]\<close>), \<open>Number\<close> on a string,
  the escaped text that \<open>encodeURIComponent\<close> returns, the host name of a URL, and the
  network as \<open>fetch_json\<close> uses it. The argument \<open>data\<close> is taken at its declared type.
\<close>

record ExternalRecord =
  ingredient :: jsstring
  source :: jsstring
  data :: jsval

record local_world =
  glossary_file :: jsval
  rules_file :: jsval
  to_number :: "jsstring \<Rightarrow> jsnum"
  uri_escape :: "jsstring \<Rightarrow> jsstring"
  url_hostname :: "jsstring \<Rightarrow> jsstring option"
  http_get :: "jsstring \<Rightarrow> headers \<Rightarrow> fetch_outcome"

text \<open>
  \<open>xs.some((x) => x.toLowerCase() === needle)\<close>, the callback of both \<open>synonyms\<close> and
  \<open>applies_to\<close>: it stops at the first hit, and calling \<open>toLowerCase\<close> on a value that is
  not a string throws.
\<close>

fun some_lower_equals :: "(jsstring \<Rightarrow> jsstring) \<Rightarrow> jsstring \<Rightarrow> jsval list \<Rightarrow> error + bool" where
  "some_lower_equals lower needle [] = Inr False"
| "some_lower_equals lower needle (JStr x # rest) =
     (if lower x = needle then Inr True else some_lower_equals lower needle rest)"
| "some_lower_equals lower needle (v # rest) = Inl TypeError"

text \<open>
  The callback of \<open>glossary.find\<close>. \<open>item.name.toLowerCase()\<close> throws unless \<open>name\<close> is a
  string; \<open>(item.synonyms || []).some\<close> throws when \<open>synonyms\<close> is truthy and not an array.
\<close>

definition glossary_item_matches ::
  "(jsstring \<Rightarrow> jsstring) \<Rightarrow> jsstring \<Rightarrow> jsval \<Rightarrow> error + bool" where
  "glossary_item_matches lower needle item =
     (case get_prop item (ascii ''name'') of
        JStr n \<Rightarrow>
          if lower n = needle then Inr True
          else (let synonyms = get_prop item (ascii ''synonyms'')
                in if \<not> truthy synonyms then Inr False
                   else (case synonyms of
                           JArr syns \<Rightarrow> some_lower_equals lower needle syns
                         | _ \<Rightarrow> Inl TypeError))
      | _ \<Rightarrow> Inl TypeError)"

fun find_entry :: "(jsstring \<Rightarrow> jsstring) \<Rightarrow> jsstring \<Rightarrow> jsval list \<Rightarrow> error + jsval option" where
  "find_entry lower needle [] = Inr None"
| "find_entry lower needle (item # rest) =
     (case glossary_item_matches lower needle item of
        Inl err \<Rightarrow> Inl err
      | Inr True \<Rightarrow> Inr (Some item)
      | Inr False \<Rightarrow> find_entry lower needle rest)"

text \<open>
  The loop of \<open>matchGlossaryEntries\<close> from a value of \<open>matches\<close>. \<open>glossary.find\<close> throws
  when the glossary is not an array.
\<close>

fun match_ingredients ::
  "(jsstring \<Rightarrow> jsstring) \<Rightarrow> jsval \<Rightarrow> jsstring list \<Rightarrow> (jsstring \<rightharpoonup> jsval)
     \<Rightarrow> error + (jsstring \<rightharpoonup> jsval)" where
  "match_ingredients lower gl [] matches = Inr matches"
| "match_ingredients lower gl (ing # rest) matches =
     (case gl of
        JArr entries \<Rightarrow>
          (case find_entry lower (lower ing) entries of
             Inl err \<Rightarrow> Inl err
           | Inr None \<Rightarrow> match_ingredients lower gl rest matches
           | Inr (Some entry) \<Rightarrow> match_ingredients lower gl rest (matches(ing \<mapsto> entry)))
      | _ \<Rightarrow> Inl TypeError)"

definition matchGlossaryEntries ::
  "(jsstring \<Rightarrow> jsstring) \<Rightarrow> jsstring list \<Rightarrow> jsval \<Rightarrow> error + (jsstring \<rightharpoonup> jsval)" where
  "matchGlossaryEntries lower ings gl = match_ingredients lower gl ings Map.empty"

text \<open>
  The callback of \<open>rules.filter\<close>. \<open>rule.applies_to.some\<close> throws when \<open>applies_to\<close> is
  truthy and not an array; \<open>rule.pattern.toLowerCase()\<close> throws unless \<open>pattern\<close> is a
  string (so for every rule that is not an object).
\<close>

definition rule_applies :: "(jsstring \<Rightarrow> jsstring) \<Rightarrow> jsstring \<Rightarrow> jsval \<Rightarrow> error + bool" where
  "rule_applies lower lw rule =
     (let applies_to = get_prop rule (ascii ''applies_to'')
      in case (if truthy applies_to
               then (case applies_to of
                       JArr names \<Rightarrow> some_lower_equals lower lw names
                     | _ \<Rightarrow> Inl TypeError)
               else Inr False) of
           Inl err \<Rightarrow> Inl err
         | Inr True \<Rightarrow> Inr True
         | Inr False \<Rightarrow>
             (case get_prop rule (ascii ''pattern'') of
                JStr pattern \<Rightarrow> Inr (includes_str lw (lower pattern))
              | _ \<Rightarrow> Inl TypeError))"

fun filter_rules :: "(jsstring \<Rightarrow> jsstring) \<Rightarrow> jsstring \<Rightarrow> jsval list \<Rightarrow> error + jsval list" where
  "filter_rules lower lw [] = Inr []"
| "filter_rules lower lw (rule # rest) =
     (case rule_applies lower lw rule of
        Inl err \<Rightarrow> Inl err
      | Inr hit \<Rightarrow>
          (case filter_rules lower lw rest of
             Inl err \<Rightarrow> Inl err
           | Inr hits \<Rightarrow> Inr (if hit then rule # hits else hits)))"

text \<open>
  The loop of \<open>applyRiskRules\<close> from a value of \<open>result\<close>. \<open>rules.filter\<close> throws when the
  rules are not an array.
\<close>

fun apply_rules ::
  "(jsstring \<Rightarrow> jsstring) \<Rightarrow> jsval \<Rightarrow> jsstring list \<Rightarrow> (jsstring \<rightharpoonup> jsval list)
     \<Rightarrow> error + (jsstring \<rightharpoonup> jsval list)" where
  "apply_rules lower rl [] result = Inr result"
| "apply_rules lower rl (ing # rest) result =
     (case rl of
        JArr rs \<Rightarrow>
          (case filter_rules lower (lower ing) rs of
             Inl err \<Rightarrow> Inl err
           | Inr hits \<Rightarrow>
               apply_rules lower rl rest (if length hits > 0 then result(ing \<mapsto> hits) else result))
      | _ \<Rightarrow> Inl TypeError)"

definition applyRiskRules ::
  "(jsstring \<Rightarrow> jsstring) \<Rightarrow> jsstring list \<Rightarrow> jsval \<Rightarrow> error + (jsstring \<rightharpoonup> jsval list)" where
  "applyRiskRules lower ings rl = apply_rules lower rl ings Map.empty"

definition shouldFetchExternally :: "(jsstring \<Rightarrow> jsstring) \<Rightarrow> env \<Rightarrow> bool" where
  "shouldFetchExternally lower e \<longleftrightarrow> lower (env_or (WEB_FETCH_ENABLED e) []) = ascii ''true''"

text \<open>
  The number of rounds of the loop \<open>for (index = 0; index < limit; index += 1)\<close> with
  \<open>limit = Math.min(ingredients.length, Number(process.env.OFF_FETCH_LIMIT || 3))\<close>: none
  when the limit is NaN or not positive, else the indices below it.
\<close>

definition fetch_rounds :: "local_world \<Rightarrow> env \<Rightarrow> nat \<Rightarrow> nat" where
  "fetch_rounds w e len =
     (case (case OFF_FETCH_LIMIT e of
              Some s \<Rightarrow> if s \<noteq> [] then to_number w s else Fin 3
            | None \<Rightarrow> Fin 3) of
        NaN \<Rightarrow> 0
      | NegInf \<Rightarrow> 0
      | PosInf \<Rightarrow> len
      | Fin q \<Rightarrow> if q \<le> 0 then 0 else min len (nat \<lceil>q\<rceil>))"

text \<open>
  \<open>encodeURIComponent\<close> throws a \<open>URIError\<close> exactly when its argument has a surrogate
  code unit that is not part of a pair (a high surrogate followed by a low one).
\<close>

fun lone_surrogate :: "jsstring \<Rightarrow> bool" where
  "lone_surrogate [] = False"
| "lone_surrogate [c] = (0xD800 \<le> c \<and> c \<le> 0xDFFF)"
| "lone_surrogate (c # d # rest) =
     (if 0xD800 \<le> c \<and> c \<le> 0xDBFF
      then (if 0xDC00 \<le> d \<and> d \<le> 0xDFFF then lone_surrogate rest else True)
      else if 0xDC00 \<le> c \<and> c \<le> 0xDFFF then True
      else lone_surrogate (d # rest))"

definition encodeURIComponent :: "local_world \<Rightarrow> jsstring \<Rightarrow> jsstring option" where
  "encodeURIComponent w s = (if lone_surrogate s then None else Some (uri_escape w s))"

definition search_url :: "jsstring \<Rightarrow> jsstring \<Rightarrow> jsstring" where
  "search_url baseDomain encoded =
     ascii ''https://'' @ baseDomain @ ascii ''/cgi/search.pl?search_terms='' @ encoded
       @ ascii ''&search_simple=1&json=1&page_size=1''"

text \<open>
  The body of that loop over the ingredients it visits: \<open>encodeURIComponent\<close> is outside
  the \<open>try\<close>, so its exception ends the call; a failure of \<open>fetch_json\<close> is caught and the
  ingredient skipped. The second component lists the lookups sent.
\<close>

fun fetch_records ::
  "local_world \<Rightarrow> jsstring \<Rightarrow> jsstring list
     \<Rightarrow> (error + ExternalRecord list) \<times> (jsstring \<times> headers) list" where
  "fetch_records w baseDomain [] = (Inr [], [])"
| "fetch_records w baseDomain (ing # rest) =
     (case encodeURIComponent w ing of
        None \<Rightarrow> (Inl URIError, [])
      | Some encoded \<Rightarrow>
          (let looked = fetch_json (url_hostname w) (http_get w) (search_url baseDomain encoded)
                          (Some [(ascii ''User-Agent'', ascii ''Lablr-Agent'')]);
               more = fetch_records w baseDomain rest
           in (case fst more of
                 Inl err \<Rightarrow> Inl err
               | Inr records \<Rightarrow>
                   Inr (case fst looked of
                          Inr found \<Rightarrow>
                            \<lparr> ingredient = ing, source = baseDomain, data = found \<rparr> # records
                        | Inl failure \<Rightarrow> records),
               snd looked @ snd more)))"

definition fetchExternalRecords ::
  "(jsstring \<Rightarrow> jsstring) \<Rightarrow> local_world \<Rightarrow> env \<Rightarrow> jsstring list \<Rightarrow> domain_guess
     \<Rightarrow> (error + ExternalRecord list) \<times> (jsstring \<times> headers) list" where
  "fetchExternalRecords lower w e ings domain =
     (if \<not> shouldFetchExternally lower e \<or> length ings = 0 then (Inr [], [])
      else fetch_records w
             (if domain = Cosmetic then ascii ''world.openbeautyfacts.org''
              else ascii ''world.openfoodfacts.org'')
             (take (fetch_rounds w e (length ings)) ings))"

text \<open>
  The candidates and the requests. The context assembled above is part of the text of the
  user message, which is the same in every request.
\<close>

definition modelsToTry :: "env \<Rightarrow> jsstring list" where
  "modelsToTry e =
     array_from_set
       (filter (\<lambda>v. length v > 0)
          [trim (env_or (INTERFAZE_EXPLAIN_MODEL e) []),
           trim (env_or (INTERFAZE_OCR_MODEL e) []),
           ascii ''interfaze-beta''])"

definition buildRequestBody :: "jsstring \<Rightarrow> request" where
  "buildRequestBody m = \<lparr> model = m, format = JsonSchema \<rparr>"

text \<open>
  The loop over the candidates, from the values of \<open>lastStatus\<close> and \<open>lastErrorText\<close>
  at its head; it returns \<open>response\<close>, \<open>lastStatus\<close> and \<open>lastErrorText\<close> at its exit
  and the requests sent. The \<open>continue\<close> of the source is the last statement of the
  loop body: both branches of its test go on with the next candidate.
\<close>

fun try_candidates ::
  "(request \<Rightarrow> fetch_outcome) \<Rightarrow> jsstring list \<Rightarrow> nat option \<Rightarrow> jsstring
     \<Rightarrow> (error + response option \<times> nat option \<times> jsstring) \<times> request list" where
  "try_candidates fetch [] lastStatus lastErrorText = (Inr (None, lastStatus, lastErrorText), [])"
| "try_candidates fetch (candidate # rest) lastStatus lastErrorText =
     (case fetch (buildRequestBody candidate) of
        Resolved attempt \<Rightarrow>
          if ok attempt then
            (Inr (Some attempt, lastStatus, lastErrorText), [buildRequestBody candidate])
          else
            (let next = try_candidates fetch rest (Some (status attempt)) (error_text attempt)
             in if (status attempt = 400 \<or> status attempt = 422)
                   \<and> candidate \<noteq> ascii ''interfaze-beta''
                then (fst next, buildRequestBody candidate # snd next)
                else (fst next, buildRequestBody candidate # snd next))
      | _ \<Rightarrow> (Inl FetchFailed, [buildRequestBody candidate]))"

text \<open>
  The construction of the result from the parsed JSON \<open>rawResult\<close>. Reading a property
  of \<open>null\<close> throws.
\<close>

definition explanation_of_raw :: "(rat \<Rightarrow> rat) \<Rightarrow> jsval \<Rightarrow> error + ExplanationResult" where
  "explanation_of_raw rd rawResult =
     (if rawResult = JNull \<or> rawResult = JUndefined then Inl TypeError
      else Inr
        \<lparr> summary = (case get_prop rawResult (ascii ''summary'') of
                       JStr s \<Rightarrow> s | _ \<Rightarrow> summary DEFAULT_RESULT_explain),
          items = normalizeItems rd (get_prop rawResult (ascii ''items'')),
          disclaimer = (case get_prop rawResult (ascii ''disclaimer'') of
                          JStr s \<Rightarrow> s | _ \<Rightarrow> disclaimer DEFAULT_RESULT_explain) \<rparr>)"

text \<open>
  From a successful response to the result. Outside production the usage is logged, which
  reads a property of the payload and throws when the payload is \<open>null\<close>.
\<close>

definition explanation_of_response ::
  "(rat \<Rightarrow> rat) \<Rightarrow> (jsstring \<Rightarrow> jsval option) \<Rightarrow> env \<Rightarrow> response
     \<Rightarrow> error + ExplanationResult" where
  "explanation_of_response rd parse e r =
     (case body_json r of
        None \<Rightarrow> Inl BodyUnreadable
      | Some payload \<Rightarrow>
          if NODE_ENV e \<noteq> Some (ascii ''production'') \<and> payload = JNull
          then Inl TypeError
          else (let content = extractMessageContent payload
                in if content = [] then Inr DEFAULT_RESULT_explain
                   else (case parse content of
                           None \<Rightarrow> Inr DEFAULT_RESULT_explain
                         | Some rawResult \<Rightarrow> explanation_of_raw rd rawResult)))"

text \<open>The test after the loop: without a successful response the call throws.\<close>

definition explanation_of_attempts ::
  "(rat \<Rightarrow> rat) \<Rightarrow> (jsstring \<Rightarrow> jsval option) \<Rightarrow> env
     \<Rightarrow> response option \<times> nat option \<times> jsstring \<Rightarrow> error + ExplanationResult" where
  "explanation_of_attempts rd parse e st =
     (case st of (resp, lastStatus, lastErrorText) \<Rightarrow>
        (case resp of
           None \<Rightarrow> Inl (ApiError (case lastStatus of Some s \<Rightarrow> s | None \<Rightarrow> 500) lastErrorText)
         | Some r \<Rightarrow>
             if \<not> ok r
             then Inl (ApiError (case lastStatus of Some s \<Rightarrow> s | None \<Rightarrow> status r) lastErrorText)
             else explanation_of_response rd parse e r))"

text \<open>
  From the list of candidates to the result: the loop, the test after it and the reading
  of the response, with the requests sent to the chat endpoint.
\<close>

definition explanation_of_candidates ::
  "(rat \<Rightarrow> rat) \<Rightarrow> (jsstring \<Rightarrow> jsval option) \<Rightarrow> env \<Rightarrow> (request \<Rightarrow> fetch_outcome)
     \<Rightarrow> (error + ExplanationResult) \<times> request list" where
  "explanation_of_candidates rd parse e fetch =
     (case try_candidates fetch (modelsToTry e) None [] of
        (Inl err, sent) \<Rightarrow> (Inl err, sent)
      | (Inr st, sent) \<Rightarrow> (explanation_of_attempts rd parse e st, sent))"

text \<open>
  \<open>explainIngredients(data)\<close>: without a credential the default result; else the glossary
  matches, the risk matches and the external records, each of which may throw, and then
  the candidates. The list returned is that of the requests to the chat endpoint.
\<close>

definition explainIngredients ::
  "(jsstring \<Rightarrow> jsstring) \<Rightarrow> (rat \<Rightarrow> rat) \<Rightarrow> (jsstring \<Rightarrow> jsval option) \<Rightarrow> local_world \<Rightarrow> env
     \<Rightarrow> (request \<Rightarrow> fetch_outcome) \<Rightarrow> OCRResult
     \<Rightarrow> (error + ExplanationResult) \<times> request list" where
  "explainIngredients lower rd parse w e fetch dat =
     (if env_or (INTERFAZE_API_KEY e) [] = [] then (Inr DEFAULT_RESULT_explain, [])
      else
        (case matchGlossaryEntries lower (ingredients dat) (glossary_file w) of
           Inl err \<Rightarrow> (Inl err, [])
         | Inr glossaryMatches \<Rightarrow>
             (case applyRiskRules lower (ingredients dat) (rules_file w) of
                Inl err \<Rightarrow> (Inl err, [])
              | Inr riskMatches \<Rightarrow>
                  (case fst (fetchExternalRecords lower w e (ingredients dat) (domain_guess dat)) of
                     Inl err \<Rightarrow> (Inl err, [])
                   | Inr externalRecords \<Rightarrow> explanation_of_candidates rd parse e fetch))))"

section \<open>Notions used to state the properties\<close>

text \<open>Deduplication that keeps the first occurrence of every value, in order.\<close>

fun first_occurrences :: "'a list \<Rightarrow> 'a list" where
  "first_occurrences [] = []"
| "first_occurrences (x # xs) = x # first_occurrences (removeAll x xs)"

text \<open>The strings among the elements of a list.\<close>

fun string_entries :: "jsval list \<Rightarrow> jsstring list" where
  "string_entries [] = []"
| "string_entries (JStr s # vs) = s # string_entries vs"
| "string_entries (v # vs) = string_entries vs"

text \<open>
  A normalized ingredient: not empty, free of the four separators, without white space at
  either end, and unchanged by lowercasing.
\<close>

definition normal_ingredient :: "(jsstring \<Rightarrow> jsstring) \<Rightarrow> jsstring \<Rightarrow> bool" where
  "normal_ingredient lower s \<longleftrightarrow>
     s \<noteq> [] \<and> (\<forall>c \<in> set s. \<not> is_separator c) \<and> trim s = s \<and> lower s = s"

text \<open>A candidate fails when its request is answered with a failure status.\<close>

definition fails :: "(request \<Rightarrow> fetch_outcome) \<Rightarrow> jsstring \<Rightarrow> bool" where
  "fails fetch c = (case fetch (buildRequestBody c) of Resolved r \<Rightarrow> \<not> ok r | _ \<Rightarrow> False)"

text \<open>
  The exception that ends \<open>explainIngredients\<close> between the test of the credential and
  the first request, if there is one.
\<close>

definition preparation ::
  "(jsstring \<Rightarrow> jsstring) \<Rightarrow> local_world \<Rightarrow> env \<Rightarrow> OCRResult \<Rightarrow> error option" where
  "preparation lower w e dat =
     (case matchGlossaryEntries lower (ingredients dat) (glossary_file w) of
        Inl err \<Rightarrow> Some err
      | Inr glossaryMatches \<Rightarrow>
          (case applyRiskRules lower (ingredients dat) (rules_file w) of
             Inl err \<Rightarrow> Some err
           | Inr riskMatches \<Rightarrow>
               (case fst (fetchExternalRecords lower w e (ingredients dat) (domain_guess dat)) of
                  Inl err \<Rightarrow> Some err
                | Inr externalRecords \<Rightarrow> None)))"

text \<open>The characters of a language tag: lowercase letters, digits and the hyphen.\<close>

definition tag_char :: "jschar \<Rightarrow> bool" where
  "tag_char c \<longleftrightarrow> is_az09 c \<or> c = 0x2D"

text \<open>The JSON form of the results, as the API routes send them.\<close>

definition sections_to_js :: "sections \<Rightarrow> jsval" where
  "sections_to_js s =
     JObj ((case warnings s of Some w \<Rightarrow> [(ascii ''warnings'', JStr w)] | None \<Rightarrow> []) @
           (case claims s of Some cs \<Rightarrow> [(ascii ''claims'', JArr (map JStr cs))] | None \<Rightarrow> []))"

definition result_to_js :: "OCRResult \<Rightarrow> jsval" where
  "result_to_js r =
     JObj [(ascii ''domain_guess'', JStr (domain_name (domain_guess r))),
           (ascii ''ingredients'', JArr (map JStr (ingredients r))),
           (ascii ''sections'', sections_to_js (sections r)),
           (ascii ''confidence'', JNum (Fin (confidence r))),
           (ascii ''language'', JStr (language r))]"

definition item_to_js :: "ExplanationItem \<Rightarrow> jsval" where
  "item_to_js i =
     JObj [(ascii ''name'', JStr (name i)),
           (ascii ''function'', JStr (fn i)),
           (ascii ''risk_level'', JStr (risk_level_name (risk_level i))),
           (ascii ''why'', JStr (why i)),
           (ascii ''certainty'', JNum (Fin (certainty i))),
           (ascii ''sources'', JArr (map JStr (sources i)))]"

text \<open>
  Instances of the platform parameters for the concrete runs: lowercasing of ASCII text,
  a rounding that is exact, a parser that returns a given value, the chat envelope around
  a content string, networks that answer every request with the same response, by the
  model or by the format requested, a URL parser that returns a given host name, three
  configured models, and the JSON texts of the parsed values used.
\<close>

definition lower_ascii_text :: "jsstring \<Rightarrow> jsstring" where
  "lower_ascii_text s = map ascii_lower s"

definition exact_rounding :: "rat \<Rightarrow> rat" where
  "exact_rounding x = x"

definition parse_as :: "jsval \<Rightarrow> jsstring \<Rightarrow> jsval option" where
  "parse_as v s = Some v"

definition envelope :: "jsstring \<Rightarrow> jsval" where
  "envelope content =
     JObj [(ascii ''choices'',
            JArr [JObj [(ascii ''message'', JObj [(ascii ''content'', JStr content)])]])]"

definition reply :: "nat \<Rightarrow> jsstring \<Rightarrow> response" where
  "reply st content =
     \<lparr> status = st, content_type = Some (ascii ''application/json''),
       body_text = Some content, body_json = Some (envelope content) \<rparr>"

definition answer_all :: "response \<Rightarrow> request \<Rightarrow> fetch_outcome" where
  "answer_all r req = Resolved r"


definition answer_by_format :: "response \<Rightarrow> response \<Rightarrow> request \<Rightarrow> fetch_outcome" where
  "answer_by_format strict relaxed req =
     (case format req of JsonSchema \<Rightarrow> Resolved strict | JsonObject \<Rightarrow> Resolved relaxed)"

definition answer_get :: "response \<Rightarrow> jsstring \<Rightarrow> headers \<Rightarrow> fetch_outcome" where
  "answer_get r url hdrs = Resolved r"

definition hostname_is :: "jsstring \<Rightarrow> jsstring \<Rightarrow> jsstring option" where
  "hostname_is h url = Some h"



definition empty_texts_json :: jsstring where
  \<open>empty_texts_json = ascii ''{"summary":"","disclaimer":""}''\<close>

definition summary_number_json :: jsstring where
  \<open>summary_number_json = ascii ''{"summary":"Two ingredients.","disclaimer":5}''\<close>

definition no_ingredients_json :: jsstring where
  \<open>no_ingredients_json = ascii ''{"ingredients":" , ","confidence":0.95}''\<close>

definition env_with_key :: env where
  "env_with_key = \<lparr> INTERFAZE_API_KEY = Some (ascii ''key''), INTERFAZE_OCR_MODEL = None,
     INTERFAZE_EXPLAIN_MODEL = None, NODE_ENV = None, WEB_FETCH_ENABLED = None,
     OFF_FETCH_LIMIT = None \<rparr>"

text \<open>
  The local files and the platform of the concrete runs of the explanation client: a
  glossary with the entry \<open>{"name":"Salt","synonyms":["sodium chloride"]}\<close>, the rule
  \<open>{"pattern":"sugar","risk_level":"Yellow","reason":"Added sugar."}\<close>, and lookups that
  are all rejected; the same with a glossary whose only entry \<open>{}\<close> has no name; a label
  with two ingredients, and one whose ingredient is a lone surrogate; an environment that
  enables the lookups, and one that configures the default model as explanation model.
\<close>

definition pantry_world :: local_world where
  "pantry_world =
     \<lparr> glossary_file =
         JArr [JObj [(ascii ''name'', JStr (ascii ''Salt'')),
                     (ascii ''synonyms'', JArr [JStr (ascii ''sodium chloride'')])]],
       rules_file =
         JArr [JObj [(ascii ''pattern'', JStr (ascii ''sugar'')),
                     (ascii ''risk_level'', JStr (ascii ''Yellow'')),
                     (ascii ''reason'', JStr (ascii ''Added sugar.''))]],
       to_number = (\<lambda>s. NaN),
       uri_escape = (\<lambda>s. s),
       url_hostname = hostname_is (ascii ''world.openfoodfacts.org''),
       http_get = (\<lambda>url hdrs. Rejected) \<rparr>"


definition salt_label :: OCRResult where
  "salt_label = \<lparr> domain_guess = Food, ingredients = [ascii ''salt'', ascii ''sugar''],
     sections = \<lparr> warnings = None, claims = None \<rparr>, confidence = 4 / 5,
     language = ascii ''en'' \<rparr>"




text \<open>The ingredient text \<open>"Water, Sugar\nArtificial Flavor; Sugar"\<close>.\<close>

definition label_text :: jsstring where
  "label_text = ascii ''Water, Sugar'' @ [0x0A] @ ascii ''Artificial Flavor; Sugar''"

text \<open>
  A list with a bulleted text, \<open>"Salt\<bullet> Pepper;salt"\<close> with the bullet U+2022 as its
  fifth code unit, a number, and \<open>"Oil,,"\<close>.
\<close>

definition bullet_text :: jsstring where
  "bullet_text = ascii ''Salt'' @ [0x2022] @ ascii '' Pepper;salt''"

definition bullet_list :: jsval where
  "bullet_list = JArr [JStr bullet_text, JNum (Fin 1), JStr (ascii ''Oil,,'')]"

section \<open>Strings: trimming and splitting\<close>

lemma trim_Nil: "trim [] = []"
  by (simp add: trim_def)

lemma trim_fixed_iff:
  "trim s = s \<longleftrightarrow> s = [] \<or> (\<not> isWhiteSpace (hd s) \<and> \<not> isWhiteSpace (last s))"
proof (cases "s = []")
  case True
  then show ?thesis by (simp add: trim_def)
next
  case False
  show ?thesis
  proof
    assume t: "trim s = s"
    have a: "\<not> isWhiteSpace (hd s)"
    proof
      assume "isWhiteSpace (hd s)"
      then have "length (dropWhile isWhiteSpace s) < length s"
        using False by (cases s) (auto simp: le_imp_less_Suc length_dropWhile_le)
      moreover have "length (trim s) \<le> length (dropWhile isWhiteSpace s)"
        unfolding trim_def by (simp add: length_dropWhile_le order.trans[OF length_dropWhile_le])
      ultimately show False using t by simp
    qed
    then have d: "dropWhile isWhiteSpace s = s" using False by (cases s) auto
    have b: "\<not> isWhiteSpace (last s)"
    proof
      assume "isWhiteSpace (last s)"
      then have "isWhiteSpace (hd (rev s))" using False by (simp add: hd_rev)
      then have "length (dropWhile isWhiteSpace (rev s)) < length (rev s)"
        using False by (cases "rev s") (auto simp: le_imp_less_Suc length_dropWhile_le)
      then have "length (trim s) < length s" unfolding trim_def d by simp
      then show False using t by simp
    qed
    from a b show "s = [] \<or> (\<not> isWhiteSpace (hd s) \<and> \<not> isWhiteSpace (last s))" by simp
  next
    assume "s = [] \<or> (\<not> isWhiteSpace (hd s) \<and> \<not> isWhiteSpace (last s))"
    then have a: "\<not> isWhiteSpace (hd s)" and b: "\<not> isWhiteSpace (last s)" using False by auto
    have d: "dropWhile isWhiteSpace s = s" using a False by (cases s) auto
    have "\<not> isWhiteSpace (hd (rev s))" using b False by (simp add: hd_rev)
    then have "dropWhile isWhiteSpace (rev s) = rev s" using False by (cases "rev s") auto
    then show "trim s = s" unfolding trim_def d by simp
  qed
qed

lemma trim_ends:
  assumes ne: "trim s \<noteq> []"
  shows "\<not> isWhiteSpace (hd (trim s)) \<and> \<not> isWhiteSpace (last (trim s))"
proof -
  let ?d = "dropWhile isWhiteSpace s"
  let ?e = "dropWhile isWhiteSpace (rev ?d)"
  have e: "?e \<noteq> []" using ne by (simp add: trim_def)
  have l: "\<not> isWhiteSpace (hd ?e)" using e by (simp add: hd_dropWhile)
  have "last (trim s) = hd ?e" unfolding trim_def using e by (simp add: last_rev)
  then have 1: "\<not> isWhiteSpace (last (trim s))" using l by simp
  have dne: "?d \<noteq> []"
  proof
    assume a: "?d = []"
    have "?e = []" unfolding a by simp
    then show False using e by blast
  qed
  then have hd: "\<not> isWhiteSpace (hd ?d)" by (simp add: hd_dropWhile)
  have "last ?e = last (rev ?d)" using e
    by (metis dropWhile_eq_Nil_conv last_appendR takeWhile_dropWhile_id)
  then have "hd (trim s) = hd ?d" unfolding trim_def using e dne by (simp add: hd_rev last_rev)
  then show ?thesis using 1 hd by simp
qed

lemma trim_idem: "trim (trim s) = trim s"
  using trim_ends[of s] trim_fixed_iff[of "trim s"] by blast

lemma set_trim: "set (trim s) \<subseteq> set s"
  by (auto simp: trim_def dest!: set_dropWhileD)

lemma split_on_nonempty: "split_on P s \<noteq> []"
  by (induction s) (auto split: list.splits)

lemma split_on_pieces: "seg \<in> set (split_on P s) \<Longrightarrow> c \<in> set seg \<Longrightarrow> \<not> P c \<and> c \<in> set s"
proof (induction s arbitrary: seg)
  case Nil
  then show ?case by simp
next
  case (Cons a s)
  show ?case
  proof (cases "P a")
    case True
    with Cons.prems have "seg = [] \<or> seg \<in> set (split_on P s)" by simp
    with Cons show ?thesis by auto
  next
    case False
    obtain x xs where sp: "split_on P s = x # xs"
      using split_on_nonempty[of P s] by (cases "split_on P s") auto
    with False Cons.prems have "seg = a # x \<or> seg \<in> set xs" by simp
    then show ?thesis
    proof
      assume "seg = a # x"
      then have "c = a \<or> c \<in> set x" using Cons.prems by simp
      then show ?thesis using False Cons.IH[of x] sp by auto
    next
      assume "seg \<in> set xs"
      then show ?thesis using Cons.IH[of seg] sp Cons.prems by auto
    qed
  qed
qed

lemma split_on_none: "\<forall>c \<in> set s. \<not> P c \<Longrightarrow> split_on P s = [s]"
  by (induction s) auto

section \<open>Deduplication and the ingredient fragments\<close>

lemma foldl_set_add:
  "foldl set_add acc xs = acc @ first_occurrences (filter (\<lambda>x. x \<notin> set acc) xs)"
proof (induction xs arbitrary: acc)
  case Nil then show ?case by simp
next
  case (Cons a xs)
  show ?case
  proof (cases "a \<in> set acc")
    case True
    then show ?thesis using Cons.IH[of acc] by (simp add: set_add_def)
  next
    case False
    have "removeAll a (filter (\<lambda>x. x \<notin> set acc) xs) = filter (\<lambda>x. x \<notin> set (acc @ [a])) xs"
      by (induction xs) auto
    then show ?thesis using False Cons.IH[of "acc @ [a]"] by (simp add: set_add_def)
  qed
qed

lemma array_from_set_first: "array_from_set xs = first_occurrences xs"
  by (simp add: array_from_set_def foldl_set_add)

lemma foldl_set_add_distinct: "distinct acc \<Longrightarrow> distinct (foldl set_add acc xs)"
  by (induction xs arbitrary: acc) (auto simp: set_add_def)

lemma foldl_set_add_set: "set (foldl set_add acc xs) = set acc \<union> set xs"
  by (induction xs arbitrary: acc) (auto simp: set_add_def)

lemma foldl_set_add_id: "distinct (acc @ xs) \<Longrightarrow> foldl set_add acc xs = acc @ xs"
  by (induction xs arbitrary: acc) (auto simp: set_add_def)

lemma array_from_set_distinct: "distinct (array_from_set xs)"
  by (simp add: array_from_set_def foldl_set_add_distinct)

lemma array_from_set_set: "set (array_from_set xs) = set xs"
  by (simp add: array_from_set_def foldl_set_add_set)

lemma array_from_set_id: "distinct xs \<Longrightarrow> array_from_set xs = xs"
  using foldl_set_add_id[of "[]" xs] by (simp add: array_from_set_def)

lemma is_separator_split: "is_separator c \<longleftrightarrow> is_newline_or_bullet c \<or> is_semicolon_or_comma c"
  by (auto simp: is_separator_def is_newline_or_bullet_def is_semicolon_or_comma_def)

lemma lower_idem: "toLowerCase_props lower \<Longrightarrow> lower (lower s) = lower s"
  unfolding toLowerCase_props_def by blast

lemma lower_no_separator:
  "toLowerCase_props lower \<Longrightarrow> c \<in> set (lower s) \<Longrightarrow> is_separator c \<Longrightarrow> c \<in> set s"
  unfolding toLowerCase_props_def by blast

lemma lower_trimmed: "toLowerCase_props lower \<Longrightarrow> trim s = s \<Longrightarrow> trim (lower s) = lower s"
  unfolding toLowerCase_props_def by blast

lemma lower_ascii:
  "toLowerCase_props lower \<Longrightarrow> \<forall>c \<in> set s. c < 0x80 \<Longrightarrow> lower s = map ascii_lower s"
  unfolding toLowerCase_props_def by blast

lemma splits_normal:
  assumes p: "toLowerCase_props lower" and t: "t \<in> set (splits lower entry)"
  shows "normal_ingredient lower t"
proof -
  from t obtain seg f where seg: "seg \<in> set (split_on is_newline_or_bullet entry)"
    and f: "f \<in> set (split_on is_semicolon_or_comma seg)"
    and tf: "t = lower (trim f)" and ne: "t \<noteq> []"
    by (auto simp: splits_def)
  have nosep_f: "\<forall>c \<in> set f. \<not> is_separator c"
    using split_on_pieces[OF f] split_on_pieces[OF seg] by (auto simp: is_separator_split)
  have nosep_t: "\<forall>c \<in> set t. \<not> is_separator c"
  proof
    fix c assume c: "c \<in> set t"
    show "\<not> is_separator c"
    proof
      assume s: "is_separator c"
      with c tf have "c \<in> set (trim f)" using lower_no_separator[OF p] by blast
      then have "c \<in> set f" using set_trim by blast
      with nosep_f s show False by blast
    qed
  qed
  have "trim t = t" unfolding tf by (rule lower_trimmed[OF p trim_idem])
  moreover have "lower t = t" unfolding tf by (rule lower_idem[OF p])
  ultimately show ?thesis using ne nosep_t by (simp add: normal_ingredient_def)
qed

lemma splits_of_normal:
  assumes n: "normal_ingredient lower s"
  shows "splits lower s = [s]"
proof -
  have a: "split_on is_newline_or_bullet s = [s]"
    using n by (intro split_on_none) (auto simp: normal_ingredient_def is_separator_split)
  have b: "split_on is_semicolon_or_comma s = [s]"
    using n by (intro split_on_none) (auto simp: normal_ingredient_def is_separator_split)
  show ?thesis using n by (simp add: splits_def a b normal_ingredient_def)
qed

lemma collect_mem:
  "t \<in> set (collect lower es) \<Longrightarrow> \<exists>entry. JStr entry \<in> set es \<and> t \<in> set (splits lower entry)"
  by (induction lower es rule: collect.induct) auto

lemma collect_of_normal:
  "\<forall>t \<in> set ts. normal_ingredient lower t \<Longrightarrow> collect lower (map JStr ts) = ts"
  by (induction ts) (auto simp: splits_of_normal)

lemma collect_normal:
  "toLowerCase_props lower \<Longrightarrow> t \<in> set (collect lower es) \<Longrightarrow> normal_ingredient lower t"
  using collect_mem splits_normal by blast

lemma lower_Nil: "toLowerCase_props lower \<Longrightarrow> lower [] = []"
  using lower_ascii[of lower "[]"] by simp

lemma splits_Nil: "toLowerCase_props lower \<Longrightarrow> splits lower [] = []"
  by (simp add: splits_def trim_Nil lower_Nil)

lemma normalizeIngredients_collect:
  assumes p: "toLowerCase_props lower"
  shows "normalizeIngredients lower raw =
     array_from_set (collect lower (case raw of JStr s \<Rightarrow> [JStr s] | JArr xs \<Rightarrow> xs | _ \<Rightarrow> []))"
proof (cases raw)
  case (JStr s)
  then show ?thesis using splits_Nil[OF p]
    by (cases "s = []") (simp_all add: normalizeIngredients_def array_from_set_def)
qed (simp_all add: normalizeIngredients_def array_from_set_def)

lemma normalizeIngredients_normal:
  assumes "toLowerCase_props lower" "t \<in> set (normalizeIngredients lower raw)"
  shows "normal_ingredient lower t"
  using assms collect_normal unfolding normalizeIngredients_collect[OF assms(1)] array_from_set_set by blast

lemma normalizeIngredients_idem:
  assumes p: "toLowerCase_props lower"
  shows "normalizeIngredients lower (JArr (map JStr (normalizeIngredients lower raw)))
           = normalizeIngredients lower raw"
proof -
  let ?r = "normalizeIngredients lower raw"
  have n: "\<forall>t \<in> set ?r. normal_ingredient lower t" using normalizeIngredients_normal[OF p] by blast
  have d: "distinct ?r" unfolding normalizeIngredients_collect[OF p] by (rule array_from_set_distinct)
  have "normalizeIngredients lower (JArr (map JStr ?r)) = array_from_set (collect lower (map JStr ?r))"
    by (simp add: normalizeIngredients_def)
  also have "\<dots> = array_from_set ?r" using collect_of_normal[OF n] by simp
  also have "\<dots> = ?r" using d by (rule array_from_set_id)
  finally show ?thesis .
qed

section \<open>ASCII lowercasing has the properties required of the platform\<close>

lemma ascii_lower_range:
  "0x41 \<le> c \<Longrightarrow> c \<le> 0x5A \<Longrightarrow> 0x61 \<le> ascii_lower c \<and> ascii_lower c \<le> 0x7A"
  unfolding ascii_lower_def by (simp add: word_le_nat_alt unat_word_ariths)

lemma ascii_lower_cases:
  "ascii_lower c = c \<or> (0x61 \<le> ascii_lower c \<and> ascii_lower c \<le> 0x7A)"
  using ascii_lower_range[of c] by (auto simp: ascii_lower_def)

lemma ascii_lower_idem: "ascii_lower (ascii_lower c) = ascii_lower c"
  unfolding ascii_lower_def by (auto simp: word_le_nat_alt unat_word_ariths)

lemma isWhiteSpace_range: "isWhiteSpace c \<Longrightarrow> \<not> (0x41 \<le> c \<and> c \<le> 0x7A)"
  by (auto simp: isWhiteSpace_def)

lemma is_separator_range: "is_separator c \<Longrightarrow> \<not> (0x41 \<le> c \<and> c \<le> 0x7A)"
  by (auto simp: is_separator_def)

lemma isWhiteSpace_ascii_lower: "isWhiteSpace (ascii_lower c) = isWhiteSpace c"
proof (cases "0x41 \<le> c \<and> c \<le> 0x5A")
  case True
  then have "0x41 \<le> ascii_lower c \<and> ascii_lower c \<le> 0x7A"
    using ascii_lower_range[of c] by (auto intro: order.trans[of "0x41::jschar" "0x61"])
  moreover have "0x41 \<le> c \<and> c \<le> 0x7A" using True by (auto intro: order.trans[of c "0x5A::jschar" "0x7A"])
  ultimately show ?thesis using isWhiteSpace_range by blast
next
  case False then show ?thesis by (auto simp: ascii_lower_def)
qed

lemma trim_map_ascii_lower: "trim (map ascii_lower s) = map ascii_lower (trim s)"
proof -
  have e: "isWhiteSpace \<circ> ascii_lower = isWhiteSpace" by (auto simp: isWhiteSpace_ascii_lower)
  show ?thesis by (simp add: trim_def dropWhile_map rev_map e)
qed

lemma toLowerCase_props_ascii: "toLowerCase_props (map ascii_lower)"
  unfolding toLowerCase_props_def
proof (intro conjI allI impI)
  fix s show "map ascii_lower (map ascii_lower s) = map ascii_lower s" by (simp add: ascii_lower_idem)
next
  fix s :: jsstring and c assume c: "c \<in> set (map ascii_lower s)" and sep: "is_separator c"
  then obtain x where x: "x \<in> set s" "c = ascii_lower x" by auto
  have "ascii_lower x = x" using ascii_lower_cases[of x] is_separator_range[OF sep] x(2)
    by (auto intro: order.trans[of "0x41::jschar" "0x61"])
  then show "c \<in> set s" using x by simp
next
  fix s assume "trim s = s" then show "trim (map ascii_lower s) = map ascii_lower s"
    by (simp add: trim_map_ascii_lower)
qed simp_all

lemma toLowerCase_props_lower_ascii_text: "toLowerCase_props lower_ascii_text"
  using toLowerCase_props_ascii by (simp add: lower_ascii_text_def[abs_def])

section \<open>Clamping and rounding\<close>

lemma toFixed3_near:
  assumes "\<bar>y - of_int n / 1000\<bar> < 1 / 2000"
  shows "toFixed3 y = of_int n / 1000"
proof -
  have "of_int n \<le> y * 1000 + 1 / 2" "y * 1000 + 1 / 2 < of_int n + 1" using assms by linarith+
  then have "\<lfloor>y * 1000 + 1 / 2\<rfloor> = n" by linarith
  then show ?thesis by (simp add: toFixed3_def)
qed

lemma toFixed3_range:
  assumes "0 \<le> x" "x \<le> 1"
  shows "0 \<le> \<lfloor>x * 1000 + 1 / 2\<rfloor> \<and> \<lfloor>x * 1000 + 1 / 2\<rfloor> \<le> 1000"
proof -
  have "0 \<le> x * 1000 + 1 / 2" "x * 1000 + 1 / 2 < 1001" using assms by auto
  then show ?thesis by (simp add: floor_less_iff le_floor_iff)
qed

lemma rd_range:
  assumes d: "double_rounding rd" and "0 \<le> q" "q \<le> 1"
  shows "0 \<le> rd q \<and> rd q \<le> 1"
proof -
  from d have m: "\<And>a b. a \<le> b \<Longrightarrow> rd a \<le> rd b" and z: "rd 0 = 0" and o: "rd 1 = 1"
    unfolding double_rounding_def by blast+
  show ?thesis using m[of 0 q] m[of q 1] assms z o by simp
qed

lemma rd_near: "double_rounding rd \<Longrightarrow> 0 \<le> a \<Longrightarrow> a \<le> 1 \<Longrightarrow> \<bar>rd a - a\<bar> < 1 / 2000"
  unfolding double_rounding_def by blast

lemma normalizeConfidence_thousandth:
  assumes d: "double_rounding rd" and n: "0 \<le> n" "n \<le> 1000"
  shows "normalizeConfidence rd (JNum (Fin (rd (of_int n / 1000)))) = rd (of_int n / 1000)"
proof -
  let ?q = "of_int n / 1000 :: rat"
  have q: "0 \<le> ?q" "?q \<le> 1" using n by auto
  have r: "0 \<le> rd ?q \<and> rd ?q \<le> 1" by (rule rd_range[OF d q])
  have tf: "toFixed3 (rd ?q) = ?q" by (rule toFixed3_near[OF rd_near[OF d q]])
  show ?thesis using r unfolding normalizeConfidence_def by (simp add: tf)
qed

lemma normalizeConfidence_form:
  "normalizeConfidence rd v = 0 \<or> normalizeConfidence rd v = 1 \<or>
   (\<exists>n. 0 \<le> n \<and> n \<le> 1000 \<and> normalizeConfidence rd v = rd (of_int n / 1000))"
proof (cases v)
  case (JNum x)
  show ?thesis
  proof (cases x)
    case (Fin y)
    show ?thesis
    proof (cases "0 \<le> y \<and> y \<le> 1")
      case True
      then have "normalizeConfidence rd v = rd (of_int \<lfloor>y * 1000 + 1 / 2\<rfloor> / 1000)"
        using JNum Fin by (simp add: normalizeConfidence_def toFixed3_def)
      then show ?thesis using toFixed3_range[of y] True by blast
    next
      case False then show ?thesis using JNum Fin by (auto simp: normalizeConfidence_def)
    qed
  qed (simp_all add: JNum normalizeConfidence_def)
qed (simp_all add: normalizeConfidence_def)

lemma normalizeCertainty_eq: "normalizeCertainty = normalizeConfidence"
  by (intro ext) (simp add: normalizeCertainty_def normalizeConfidence_def)

lemma rd0: "double_rounding rd \<Longrightarrow> rd 0 = 0"
  unfolding double_rounding_def by blast

lemma rd1: "double_rounding rd \<Longrightarrow> rd 1 = 1"
  unfolding double_rounding_def by blast

lemma normalizeConfidence_range:
  assumes d: "double_rounding rd"
  shows "0 \<le> normalizeConfidence rd v \<and> normalizeConfidence rd v \<le> 1"
  using normalizeConfidence_form[of rd v]
proof (elim disjE exE conjE)
  fix n :: int assume "0 \<le> n" "n \<le> 1000" and e: "normalizeConfidence rd v = rd (of_int n / 1000)"
  then have "0 \<le> (of_int n / 1000 :: rat)" "(of_int n / 1000 :: rat) \<le> 1" by auto
  from rd_range[OF d this] e show ?thesis by simp
qed simp_all

lemma normalizeConfidence_idem:
  assumes d: "double_rounding rd"
  shows "normalizeConfidence rd (JNum (Fin (normalizeConfidence rd v))) = normalizeConfidence rd v"
  using normalizeConfidence_form[of rd v]
proof (elim disjE exE conjE)
  assume e: "normalizeConfidence rd v = 0"
  show ?thesis using normalizeConfidence_thousandth[OF d, of 0] rd0[OF d] e by simp
next
  assume e: "normalizeConfidence rd v = 1"
  show ?thesis using normalizeConfidence_thousandth[OF d, of 1000] rd1[OF d] e by simp
next
  fix n :: int assume "0 \<le> n" "n \<le> 1000" and e: "normalizeConfidence rd v = rd (of_int n / 1000)"
  then show ?thesis using normalizeConfidence_thousandth[OF d, of n] by simp
qed

lemma double_rounding_exact: "double_rounding exact_rounding"
  by (simp add: double_rounding_def exact_rounding_def)

lemma floor_rat_numeral: "\<lfloor>(numeral a / numeral b :: rat)\<rfloor> = numeral a div numeral b"
  using floor_divide_of_int_eq[of "numeral a" "numeral b", where ?'a = rat] by simp

lemma normalizeConfidence_in_range:
  assumes "0 \<le> x" "x \<le> 1"
  shows "\<exists>n::int. 0 \<le> n \<and> n \<le> 1000 \<and> \<bar>x * 1000 - of_int n\<bar> \<le> 1 / 2
           \<and> normalizeConfidence rd (JNum (Fin x)) = rd (of_int n / 1000)"
proof -
  let ?n = "\<lfloor>x * 1000 + 1 / 2\<rfloor>"
  have "of_int ?n \<le> x * 1000 + 1 / 2" "x * 1000 + 1 / 2 < of_int ?n + 1" by linarith+
  then have "\<bar>x * 1000 - of_int ?n\<bar> \<le> 1 / 2" by linarith
  moreover have "normalizeConfidence rd (JNum (Fin x)) = rd (of_int ?n / 1000)"
    using assms by (simp add: normalizeConfidence_def toFixed3_def)
  ultimately show ?thesis using toFixed3_range[OF assms] by blast
qed

lemma normalizeConfidence_not_number: "\<forall>n. v \<noteq> JNum n \<Longrightarrow> normalizeConfidence rd v = 0"
  by (cases v) (simp_all add: normalizeConfidence_def)

text \<open>
  Claim C4. For every value, \<open>normalizeConfidence\<close> and \<open>normalizeCertainty\<close> (the same
  function) return a number from 0 to 1: 0 for a value that is not a number, for NaN and
  for a number below 0, 1 for a number above 1, and for a number \<open>x\<close> from 0 to 1 the
  double nearest to \<open>n / 1000\<close>, where \<open>n\<close> is an integer nearest to \<open>1000 x\<close>. This holds
  for every rounding with the properties of \<open>double_rounding\<close>.
\<close>

theorem normalize_confidence_certainty:
  assumes d: "double_rounding rd"
  shows "0 \<le> normalizeConfidence rd v \<and> normalizeConfidence rd v \<le> 1
    \<and> 0 \<le> normalizeCertainty rd v \<and> normalizeCertainty rd v \<le> 1
    \<and> normalizeCertainty rd v = normalizeConfidence rd v
    \<and> ((\<forall>n. v \<noteq> JNum n) \<longrightarrow> normalizeConfidence rd v = 0)
    \<and> normalizeConfidence rd (JNum NaN) = 0
    \<and> normalizeConfidence rd (JNum NegInf) = 0
    \<and> normalizeConfidence rd (JNum PosInf) = 1
    \<and> (x < 0 \<longrightarrow> normalizeConfidence rd (JNum (Fin x)) = 0)
    \<and> (1 < x \<longrightarrow> normalizeConfidence rd (JNum (Fin x)) = 1)
    \<and> (0 \<le> x \<and> x \<le> 1 \<longrightarrow>
          (\<exists>n::int. 0 \<le> n \<and> n \<le> 1000 \<and> \<bar>x * 1000 - of_int n\<bar> \<le> 1 / 2
             \<and> normalizeConfidence rd (JNum (Fin x)) = rd (of_int n / 1000)))"
proof -
  have r: "0 \<le> normalizeConfidence rd v \<and> normalizeConfidence rd v \<le> 1"
    by (rule normalizeConfidence_range[OF d])
  have c: "normalizeCertainty rd v = normalizeConfidence rd v" by (simp add: normalizeCertainty_eq)
  have n: "(\<forall>n. v \<noteq> JNum n) \<longrightarrow> normalizeConfidence rd v = 0"
    using normalizeConfidence_not_number by blast
  have s: "normalizeConfidence rd (JNum NaN) = 0" "normalizeConfidence rd (JNum NegInf) = 0"
    "normalizeConfidence rd (JNum PosInf) = 1" by (simp_all add: normalizeConfidence_def)
  have lo: "x < 0 \<longrightarrow> normalizeConfidence rd (JNum (Fin x)) = 0" by (simp add: normalizeConfidence_def)
  have hi: "1 < x \<longrightarrow> normalizeConfidence rd (JNum (Fin x)) = 1" by (simp add: normalizeConfidence_def)
  have mid: "0 \<le> x \<and> x \<le> 1 \<longrightarrow>
          (\<exists>n::int. 0 \<le> n \<and> n \<le> 1000 \<and> \<bar>x * 1000 - of_int n\<bar> \<le> 1 / 2
             \<and> normalizeConfidence rd (JNum (Fin x)) = rd (of_int n / 1000))"
    using normalizeConfidence_in_range by blast
  from r c n s lo hi mid show ?thesis by simp
qed

theorem normalize_confidence_certainty_witness:
  "double_rounding exact_rounding
   \<and> normalizeConfidence exact_rounding (JStr (ascii ''high'')) = 0
   \<and> normalizeConfidence exact_rounding (JNum (Fin (- 3))) = 0
   \<and> normalizeConfidence exact_rounding (JNum (Fin (7 / 2))) = 1
   \<and> normalizeConfidence exact_rounding (JNum (Fin (2 / 3))) = 667 / 1000
   \<and> normalizeCertainty exact_rounding (JNum (Fin (2 / 3))) = 667 / 1000"
  using normalize_confidence_certainty[OF double_rounding_exact, of "JStr (ascii ''high'')" "- 3"]
    normalize_confidence_certainty[OF double_rounding_exact, of "JNum (Fin (2 / 3))" "7 / 2"]
  by (simp add: double_rounding_exact normalizeConfidence_def toFixed3_def exact_rounding_def
      floor_rat_numeral)

section \<open>The ingredient list\<close>

lemma collect_string_entries: "collect lower es = concat (map (splits lower) (string_entries es))"
  by (induction lower es rule: collect.induct) simp_all

lemma splits_comprehension:
  "splits lower s =
     [lower (trim f). seg \<leftarrow> split_on is_newline_or_bullet s,
                      f \<leftarrow> split_on is_semicolon_or_comma seg, lower (trim f) \<noteq> []]"
proof -
  have "\<And>segs. filter (\<lambda>s. length s > 0) (map (\<lambda>s. lower (trim s)) (concat (map (split_on is_semicolon_or_comma) segs)))
     = [lower (trim f). seg \<leftarrow> segs, f \<leftarrow> split_on is_semicolon_or_comma seg, lower (trim f) \<noteq> []]"
  proof -
    fix segs show "filter (\<lambda>s. length s > 0) (map (\<lambda>s. lower (trim s)) (concat (map (split_on is_semicolon_or_comma) segs)))
     = [lower (trim f). seg \<leftarrow> segs, f \<leftarrow> split_on is_semicolon_or_comma seg, lower (trim f) \<noteq> []]"
    proof (induction segs)
      case Nil show ?case by simp
    next
      case (Cons a segs)
      have "\<And>fs. filter (\<lambda>s. length s > 0) (map (\<lambda>s. lower (trim s)) fs) = concat (map (\<lambda>f. if lower (trim f) \<noteq> [] then [lower (trim f)] else []) fs)"
      proof -
        fix fs show "filter (\<lambda>s. length s > 0) (map (\<lambda>s. lower (trim s)) fs) = concat (map (\<lambda>f. if lower (trim f) \<noteq> [] then [lower (trim f)] else []) fs)"
          by (induction fs) auto
      qed
      then show ?case using Cons by simp
    qed
  qed
  then show ?thesis by (simp add: splits_def)
qed

lemma splits_label_text:
  assumes p: "toLowerCase_props lower"
  shows "splits lower label_text = [ascii ''water'', ascii ''sugar'', ascii ''artificial flavor'', ascii ''sugar'']"
proof -
  have pieces: "concat (map (split_on is_semicolon_or_comma) (split_on is_newline_or_bullet label_text))
      = [ascii ''Water'', ascii '' Sugar'', ascii ''Artificial Flavor'', ascii '' Sugar'']"
    by (simp add: label_text_def ascii_def is_newline_or_bullet_def is_semicolon_or_comma_def)
  have t1: "trim (ascii ''Water'') = ascii ''Water''" by (simp add: trim_def isWhiteSpace_def ascii_def)
  have t2: "trim (ascii '' Sugar'') = ascii ''Sugar''" by (simp add: trim_def isWhiteSpace_def ascii_def)
  have t3: "trim (ascii ''Artificial Flavor'') = ascii ''Artificial Flavor''" by (simp add: trim_def isWhiteSpace_def ascii_def)
  have l1: "lower (ascii ''Water'') = ascii ''water''"
    using lower_ascii[OF p, of "ascii ''Water''"] by (simp add: ascii_def ascii_lower_def)
  have l2: "lower (ascii ''Sugar'') = ascii ''sugar''"
    using lower_ascii[OF p, of "ascii ''Sugar''"] by (simp add: ascii_def ascii_lower_def)
  have l3: "lower (ascii ''Artificial Flavor'') = ascii ''artificial flavor''"
    using lower_ascii[OF p, of "ascii ''Artificial Flavor''"] by (simp add: ascii_def ascii_lower_def)
  have ne: "ascii ''water'' \<noteq> []" "ascii ''sugar'' \<noteq> []" "ascii ''artificial flavor'' \<noteq> []" by (simp_all add: ascii_def)
  show ?thesis unfolding splits_def pieces using ne by (simp add: t1 t2 t3 l1 l2 l3)
qed

lemma split_on_joined:
  assumes "\<forall>c \<in> set p0. \<not> P c"
    and "\<forall>(q, piece) \<in> set rest. P q \<and> (\<forall>c \<in> set piece. \<not> P c)"
  shows "split_on P (p0 @ concat (map (\<lambda>(q, piece). q # piece) rest)) = p0 # map snd rest"
  using assms
proof (induction rest arbitrary: p0)
  case Nil
  then show ?case by (simp add: split_on_none)
next
  case (Cons a rest)
  obtain q piece where a: "a = (q, piece)" by (cases a)
  from Cons.prems(2) a have q: "P q" and pc: "\<forall>c \<in> set piece. \<not> P c"
    and r: "\<forall>(q, piece) \<in> set rest. P q \<and> (\<forall>c \<in> set piece. \<not> P c)" by auto
  have tl: "split_on P (piece @ concat (map (\<lambda>(q, piece). q # piece) rest)) = piece # map snd rest"
    by (rule Cons.IH[OF pc r])
  have "split_on P (p0 @ q # t) = p0 # split_on P t" if "\<forall>c \<in> set p0. \<not> P c" for p0 t
    using that q by (induction p0) auto
  from this[OF Cons.prems(1)] show ?case using tl a by simp
qed

lemma trim_padded:
  assumes a: "\<forall>c \<in> set a. isWhiteSpace c" and b: "\<forall>c \<in> set b. isWhiteSpace c"
    and m: "m = [] \<or> (\<not> isWhiteSpace (hd m) \<and> \<not> isWhiteSpace (last m))"
  shows "trim (a @ m @ b) = m"
proof (cases "m = []")
  case True
  have d: "dropWhile isWhiteSpace (a @ b) = []" using a b unfolding dropWhile_eq_Nil_conv by auto
  show ?thesis unfolding True trim_def append_Nil d by simp
next
  case False
  then have h: "\<not> isWhiteSpace (hd m)" and l: "\<not> isWhiteSpace (last m)" using m by auto
  have 1: "dropWhile isWhiteSpace (a @ m @ b) = m @ b"
    using a h False by (cases m) (simp_all add: dropWhile_append3)
  have "dropWhile isWhiteSpace (rev b @ rev m) = rev m"
    using b l False by (cases "rev m") (auto simp: dropWhile_append3 hd_rev dest: arg_cong[where f = hd])
  then show ?thesis unfolding trim_def 1 by simp
qed

lemma splits_bullet:
  assumes p: "toLowerCase_props lower"
  shows "splits lower bullet_text @ splits lower (ascii ''Oil,,'')
         = [ascii ''salt'', ascii ''pepper'', ascii ''salt'', ascii ''oil'']"
proof -
  have pieces1: "concat (map (split_on is_semicolon_or_comma)
        (split_on is_newline_or_bullet bullet_text))
      = [ascii ''Salt'', ascii '' Pepper'', ascii ''salt'']"
    by (simp add: bullet_text_def ascii_def is_newline_or_bullet_def is_semicolon_or_comma_def)
  have pieces2: "concat (map (split_on is_semicolon_or_comma)
        (split_on is_newline_or_bullet (ascii ''Oil,,'')))
      = [ascii ''Oil'', [], []]"
    by (simp add: ascii_def is_newline_or_bullet_def is_semicolon_or_comma_def)
  have t: "trim (ascii ''Salt'') = ascii ''Salt''" "trim (ascii '' Pepper'') = ascii ''Pepper''"
    "trim (ascii ''salt'') = ascii ''salt''" "trim (ascii ''Oil'') = ascii ''Oil''" "trim [] = []"
    by (simp_all add: trim_def isWhiteSpace_def ascii_def)
  have l: "lower (ascii ''Salt'') = ascii ''salt''" "lower (ascii ''Pepper'') = ascii ''pepper''"
    "lower (ascii ''salt'') = ascii ''salt''" "lower (ascii ''Oil'') = ascii ''oil''"
    using lower_ascii[OF p, of "ascii ''Salt''"] lower_ascii[OF p, of "ascii ''Pepper''"]
      lower_ascii[OF p, of "ascii ''salt''"] lower_ascii[OF p, of "ascii ''Oil''"]
    by (simp_all add: ascii_def ascii_lower_def)
  have ne: "ascii ''salt'' \<noteq> []" "ascii ''pepper'' \<noteq> []" "ascii ''oil'' \<noteq> []"
    by (simp_all add: ascii_def)
  show ?thesis using ne by (simp add: splits_def pieces1 pieces2 t l lower_Nil[OF p])
qed

text \<open>
  Claim C3. \<open>normalizeIngredients\<close> accepts a string or a list (any other value gives the
  empty list); of a list it reads the strings and skips the other elements; each string is
  split at the newline U+000A and at the bullet U+2022, then at the semicolon U+003B and
  at the comma U+002C, every piece is trimmed and lowercased, and the empty results are
  discarded; the fragments are deduplicated, the first occurrence of each staying in
  place. Splitting a text made of pieces without separator joined by separators gives
  back these pieces, and trimming removes the white space around a text that neither
  begins nor ends with white space. So the output has no duplicates and no empty string,
  none of its strings contains one of the four separators,
  \<open>"Water, Sugar\nArtificial Flavor; Sugar"\<close> gives \<open>["water", "sugar", "artificial flavor"]\<close>,
  and the list of \<open>"Salt\<bullet> Pepper;salt"\<close>, a number and \<open>"Oil,,"\<close> gives
  \<open>["salt", "pepper", "oil"]\<close>. This holds for every lowercasing with the properties of
  \<open>toLowerCase_props\<close>.
\<close>

theorem normalizeIngredients_spec:
  assumes p: "toLowerCase_props lower"
  shows "normalizeIngredients lower raw =
           first_occurrences (concat (map (splits lower)
             (case raw of JStr s \<Rightarrow> [s] | JArr xs \<Rightarrow> string_entries xs | _ \<Rightarrow> [])))
         \<and> splits lower s =
             [lower (trim f). seg \<leftarrow> split_on (\<lambda>c. c = 0x0A \<or> c = 0x2022) s,
                              f \<leftarrow> split_on (\<lambda>c. c = 0x3B \<or> c = 0x2C) seg, lower (trim f) \<noteq> []]
         \<and> ((\<forall>c \<in> set p0. \<not> P c) \<and> (\<forall>(q, piece) \<in> set rest. P q \<and> (\<forall>c \<in> set piece. \<not> P c))
              \<longrightarrow> split_on P (p0 @ concat (map (\<lambda>(q, piece). q # piece) rest)) = p0 # map snd rest)
         \<and> ((\<forall>c \<in> set a. isWhiteSpace c) \<and> (\<forall>c \<in> set b. isWhiteSpace c)
              \<and> (m = [] \<or> (\<not> isWhiteSpace (hd m) \<and> \<not> isWhiteSpace (last m)))
              \<longrightarrow> trim (a @ m @ b) = m)
         \<and> distinct (normalizeIngredients lower raw)
         \<and> [] \<notin> set (normalizeIngredients lower raw)
         \<and> (t \<in> set (normalizeIngredients lower raw) \<longrightarrow>
               0x0A \<notin> set t \<and> 0x2022 \<notin> set t \<and> 0x3B \<notin> set t \<and> 0x2C \<notin> set t)
         \<and> normalizeIngredients lower (JStr label_text) =
             [ascii ''water'', ascii ''sugar'', ascii ''artificial flavor'']
         \<and> normalizeIngredients lower bullet_list = [ascii ''salt'', ascii ''pepper'', ascii ''oil'']"
proof (intro conjI)
  show eq: "normalizeIngredients lower raw =
           first_occurrences (concat (map (splits lower)
             (case raw of JStr s \<Rightarrow> [s] | JArr xs \<Rightarrow> string_entries xs | _ \<Rightarrow> [])))" for raw
    unfolding normalizeIngredients_collect[OF p] array_from_set_first
    by (cases raw) (simp_all add: collect_string_entries)
  have c1: "is_newline_or_bullet = (\<lambda>c. c = 0x0A \<or> c = 0x2022)"
    by (simp add: is_newline_or_bullet_def fun_eq_iff)
  have c2: "is_semicolon_or_comma = (\<lambda>c. c = 0x3B \<or> c = 0x2C)"
    by (simp add: is_semicolon_or_comma_def fun_eq_iff)
  show "splits lower s =
             [lower (trim f). seg \<leftarrow> split_on (\<lambda>c. c = 0x0A \<or> c = 0x2022) s,
                              f \<leftarrow> split_on (\<lambda>c. c = 0x3B \<or> c = 0x2C) seg, lower (trim f) \<noteq> []]"
    using splits_comprehension[of lower s] unfolding c1 c2 .
  show "(\<forall>c \<in> set p0. \<not> P c) \<and> (\<forall>(q, piece) \<in> set rest. P q \<and> (\<forall>c \<in> set piece. \<not> P c))
              \<longrightarrow> split_on P (p0 @ concat (map (\<lambda>(q, piece). q # piece) rest)) = p0 # map snd rest"
    using split_on_joined[of p0 P rest] by blast
  show "(\<forall>c \<in> set a. isWhiteSpace c) \<and> (\<forall>c \<in> set b. isWhiteSpace c)
              \<and> (m = [] \<or> (\<not> isWhiteSpace (hd m) \<and> \<not> isWhiteSpace (last m)))
              \<longrightarrow> trim (a @ m @ b) = m"
    using trim_padded[of a b m] by blast
  show "distinct (normalizeIngredients lower raw)"
    unfolding normalizeIngredients_collect[OF p] by (rule array_from_set_distinct)
  show "[] \<notin> set (normalizeIngredients lower raw)"
    using normalizeIngredients_normal[OF p, of "[]" raw] by (auto simp: normal_ingredient_def)
  show "t \<in> set (normalizeIngredients lower raw) \<longrightarrow>
               0x0A \<notin> set t \<and> 0x2022 \<notin> set t \<and> 0x3B \<notin> set t \<and> 0x2C \<notin> set t"
    using normalizeIngredients_normal[OF p, of t raw]
    by (auto simp: normal_ingredient_def is_separator_def)
  have d: "ascii ''water'' \<noteq> ascii ''sugar''" "ascii ''water'' \<noteq> ascii ''artificial flavor''"
     "ascii ''sugar'' \<noteq> ascii ''artificial flavor''" by (simp_all add: ascii_def)
  show "normalizeIngredients lower (JStr label_text) =
             [ascii ''water'', ascii ''sugar'', ascii ''artificial flavor'']"
    unfolding eq using d by (simp add: splits_label_text[OF p])
  have d2: "ascii ''salt'' \<noteq> ascii ''pepper''" "ascii ''salt'' \<noteq> ascii ''oil''"
     "ascii ''pepper'' \<noteq> ascii ''oil''" by (simp_all add: ascii_def)
  show "normalizeIngredients lower bullet_list = [ascii ''salt'', ascii ''pepper'', ascii ''oil'']"
    unfolding eq bullet_list_def using d2 by (simp add: splits_bullet[OF p])
qed

theorem normalizeIngredients_spec_witness:
  "toLowerCase_props lower_ascii_text
   \<and> normalizeIngredients lower_ascii_text (JStr label_text) =
             [ascii ''water'', ascii ''sugar'', ascii ''artificial flavor'']
   \<and> normalizeIngredients lower_ascii_text bullet_list = [ascii ''salt'', ascii ''pepper'', ascii ''oil'']
   \<and> split_on (\<lambda>c. c = 0x0A \<or> c = 0x2022) (ascii ''Salt'' @ [0x2022] @ ascii '' Pepper'')
       = [ascii ''Salt'', ascii '' Pepper'']
   \<and> trim (ascii ''  '' @ ascii ''Pepper'' @ ascii '' '') = ascii ''Pepper''
   \<and> ascii ''pepper'' \<in> set (normalizeIngredients lower_ascii_text bullet_list)
   \<and> 0x2022 \<notin> set (ascii ''pepper'')"
proof -
  note t = normalizeIngredients_spec[OF toLowerCase_props_lower_ascii_text,
      of bullet_list "ascii ''Salt''" "ascii ''Salt''" "\<lambda>c. c = 0x0A \<or> c = 0x2022"
         "[(0x2022, ascii '' Pepper'')]" "ascii ''  ''" "ascii '' ''" "ascii ''Pepper''" "ascii ''pepper''"]
  have w: "\<forall>c \<in> set (ascii ''  ''). isWhiteSpace c" "\<forall>c \<in> set (ascii '' ''). isWhiteSpace c"
    "\<not> isWhiteSpace (hd (ascii ''Pepper''))" "\<not> isWhiteSpace (last (ascii ''Pepper''))"
    by (simp_all add: ascii_def isWhiteSpace_def)
  have s: "\<forall>c \<in> set (ascii ''Salt''). \<not> (c = 0x0A \<or> c = 0x2022)"
    "\<forall>(q, piece) \<in> set [(0x2022 :: jschar, ascii '' Pepper'')].
        (q = 0x0A \<or> q = 0x2022) \<and> (\<forall>c \<in> set piece. \<not> (c = 0x0A \<or> c = 0x2022))"
    by (simp_all add: ascii_def)
  have 1: "split_on (\<lambda>c. c = 0x0A \<or> c = 0x2022) (ascii ''Salt'' @ [0x2022] @ ascii '' Pepper'')
       = [ascii ''Salt'', ascii '' Pepper'']"
    using t s by simp
  have 2: "trim (ascii ''  '' @ ascii ''Pepper'' @ ascii '' '') = ascii ''Pepper''"
    using t w by blast
  have 3: "normalizeIngredients lower_ascii_text bullet_list = [ascii ''salt'', ascii ''pepper'', ascii ''oil'']"
    using t by blast
  have 4: "normalizeIngredients lower_ascii_text (JStr label_text) =
             [ascii ''water'', ascii ''sugar'', ascii ''artificial flavor'']"
    using t by blast
  have 5: "ascii ''pepper'' \<in> set (normalizeIngredients lower_ascii_text bullet_list)"
    unfolding 3 by simp
  have 6: "0x2022 \<notin> set (ascii ''pepper'')" using t 5 by blast
  from 1 2 3 4 5 6 toLowerCase_props_lower_ascii_text show ?thesis by simp
qed

text \<open>
  Claim C10. Every string in the output of \<open>normalizeIngredients\<close> contains no newline,
  bullet, comma or semicolon, is not empty, has no white space at either end, and is
  unchanged by lowercasing.
\<close>

theorem normalizeIngredients_strings:
  assumes p: "toLowerCase_props lower" and t: "t \<in> set (normalizeIngredients lower raw)"
  shows "0x0A \<notin> set t \<and> 0x2022 \<notin> set t \<and> 0x2C \<notin> set t \<and> 0x3B \<notin> set t
         \<and> t \<noteq> [] \<and> \<not> isWhiteSpace (hd t) \<and> \<not> isWhiteSpace (last t) \<and> trim t = t
         \<and> lower t = t"
proof -
  have n: "normal_ingredient lower t" by (rule normalizeIngredients_normal[OF p t])
  then have "t \<noteq> []" "trim t = t" by (simp_all add: normal_ingredient_def)
  then have "\<not> isWhiteSpace (hd t) \<and> \<not> isWhiteSpace (last t)" using trim_fixed_iff[of t] by simp
  then show ?thesis using n by (auto simp: normal_ingredient_def is_separator_def)
qed

theorem normalizeIngredients_strings_witness:
  "toLowerCase_props lower_ascii_text
   \<and> ascii ''oil'' \<in> set (normalizeIngredients lower_ascii_text (JStr (ascii ''Salt, OIL '')))
   \<and> 0x0A \<notin> set (ascii ''oil'') \<and> 0x2022 \<notin> set (ascii ''oil'')
   \<and> 0x2C \<notin> set (ascii ''oil'') \<and> 0x3B \<notin> set (ascii ''oil'')
   \<and> \<not> isWhiteSpace (hd (ascii ''oil'')) \<and> \<not> isWhiteSpace (last (ascii ''oil''))
   \<and> lower_ascii_text (ascii ''oil'') = ascii ''oil''"
proof -
  have m: "ascii ''oil'' \<in> set (normalizeIngredients lower_ascii_text (JStr (ascii ''Salt, OIL '')))"
    by (simp add: normalizeIngredients_def array_from_set_def set_add_def splits_def ascii_def
        lower_ascii_text_def ascii_lower_def trim_def isWhiteSpace_def is_newline_or_bullet_def
        is_semicolon_or_comma_def)
  show ?thesis
    using normalizeIngredients_strings[OF toLowerCase_props_lower_ascii_text m] m
    by (simp add: toLowerCase_props_lower_ascii_text)
qed

section \<open>The extraction result\<close>

lemma extract_envelope: "extractMessageContent (envelope content) = content"
  by (simp add: extractMessageContent_def envelope_def ascii_def)

lemma ocr_result_of_response_cases:
  "ocr_result_of_response lower rd parse resp = Inr r \<Longrightarrow>
     r = DEFAULT_RESULT \<or> (\<exists>raw. r = result_of_raw lower rd raw)"
  by (auto simp: ocr_result_of_response_def Let_def split: if_splits option.splits)

lemma analyzeLabel_cases:
  "analyzeLabel lower rd parse e fetch image_url = (Inr r, sent) \<Longrightarrow>
     r = DEFAULT_RESULT \<or> (\<exists>resp. ocr_result_of_response lower rd parse resp = Inr r)"
  unfolding analyzeLabel_def Let_def
  by (auto split: if_splits fetch_outcome.splits)

lemma rd_fifth_nonneg: "double_rounding rd \<Longrightarrow> 0 \<le> rd (1 / 5)"
  using rd_range[of rd "1 / 5"] by simp

lemma result_of_raw_capped:
  "ingredients (result_of_raw lower rd raw) = [] \<Longrightarrow>
     confidence (result_of_raw lower rd raw)
       = min (normalizeConfidence rd (get_prop raw (ascii ''confidence''))) (rd (1 / 5))"
  by (simp add: result_of_raw_def Let_def split: if_splits)

text \<open>
  Claim C2. When the normalized ingredient list is empty, the confidence of the result is
  the smaller of the normalized confidence and 0.2 (the double \<open>rd (1/5)\<close>), whatever
  confidence the upstream reported; so every result that \<open>analyzeLabel\<close> returns without
  ingredients has a confidence of at most 0.2, and the reported confidence 0.95 with no
  ingredients gives 0.2.
\<close>

theorem confidence_capped_without_ingredients:
  assumes d: "double_rounding rd"
  shows "(ingredients (result_of_raw lower rd raw) = [] \<longrightarrow>
            confidence (result_of_raw lower rd raw)
              = min (normalizeConfidence rd (get_prop raw (ascii ''confidence''))) (rd (1 / 5))
            \<and> confidence (result_of_raw lower rd raw) \<le> rd (1 / 5))
    \<and> (analyzeLabel lower rd parse e fetch image_url = (Inr r, sent) \<longrightarrow>
         ingredients r = [] \<longrightarrow> confidence r \<le> rd (1 / 5))
    \<and> confidence (result_of_raw lower rd
          (JObj [(ascii ''ingredients'', JArr []),
                 (ascii ''confidence'', JNum (Fin (rd (19 / 20))))])) = rd (1 / 5)"
proof (intro conjI impI)
  assume i: "ingredients (result_of_raw lower rd raw) = []"
  show "confidence (result_of_raw lower rd raw)
          = min (normalizeConfidence rd (get_prop raw (ascii ''confidence''))) (rd (1 / 5))"
    by (rule result_of_raw_capped[OF i])
  then show "confidence (result_of_raw lower rd raw) \<le> rd (1 / 5)" by simp
next
  assume a: "analyzeLabel lower rd parse e fetch image_url = (Inr r, sent)" and i: "ingredients r = []"
  from analyzeLabel_cases[OF a] ocr_result_of_response_cases
  have "r = DEFAULT_RESULT \<or> (\<exists>raw. r = result_of_raw lower rd raw)" by blast
  then show "confidence r \<le> rd (1 / 5)"
  proof
    assume "r = DEFAULT_RESULT"
    then show ?thesis using rd_fifth_nonneg[OF d] by (simp add: DEFAULT_RESULT_def)
  next
    assume "\<exists>raw. r = result_of_raw lower rd raw"
    then obtain raw where r: "r = result_of_raw lower rd raw" by blast
    show ?thesis using result_of_raw_capped[of lower rd raw] i unfolding r by simp
  qed
next
  let ?raw = "JObj [(ascii ''ingredients'', JArr []),
                 (ascii ''confidence'', JNum (Fin (rd (19 / 20))))]"
  have g: "get_prop ?raw (ascii ''confidence'') = JNum (Fin (rd (19 / 20)))"
    "get_prop ?raw (ascii ''ingredients'') = JArr []" by (simp_all add: ascii_def)
  have i: "ingredients (result_of_raw lower rd ?raw) = []"
    unfolding result_of_raw_def Let_def g
    by (simp add: normalizeIngredients_def array_from_set_def)
  have "normalizeConfidence rd (JNum (Fin (rd (of_int 950 / 1000)))) = rd (of_int 950 / 1000)"
    by (rule normalizeConfidence_thousandth[OF d]) simp_all
  then have n: "normalizeConfidence rd (JNum (Fin (rd (19 / 20)))) = rd (19 / 20)" by simp
  have "rd (1 / 5) \<le> rd (19 / 20)" using d unfolding double_rounding_def by simp
  then show "confidence (result_of_raw lower rd ?raw) = rd (1 / 5)"
    unfolding result_of_raw_capped[OF i] g n by simp
qed

theorem confidence_capped_without_ingredients_witness:
  "double_rounding exact_rounding
   \<and> ingredients (result_of_raw lower_ascii_text exact_rounding
        (JObj [(ascii ''ingredients'', JStr (ascii '' , '')),
               (ascii ''confidence'', JNum (Fin (19 / 20)))])) = []
   \<and> analyzeLabel lower_ascii_text exact_rounding
        (parse_as (JObj [(ascii ''ingredients'', JStr (ascii '' , '')),
                         (ascii ''confidence'', JNum (Fin (19 / 20)))]))
        env_with_key (answer_all (reply 200 no_ingredients_json)) (JStr (ascii ''data:image/png;base64,AA==''))
      = (Inr (result_of_raw lower_ascii_text exact_rounding
                (JObj [(ascii ''ingredients'', JStr (ascii '' , '')),
                       (ascii ''confidence'', JNum (Fin (19 / 20)))])),
         [\<lparr> model = ascii ''interfaze-beta'', format = JsonSchema \<rparr>])
   \<and> confidence (result_of_raw lower_ascii_text exact_rounding
        (JObj [(ascii ''ingredients'', JStr (ascii '' , '')),
               (ascii ''confidence'', JNum (Fin (19 / 20)))])) = 1 / 5"
proof -
  let ?raw = "JObj [(ascii ''ingredients'', JStr (ascii '' , '')),
                    (ascii ''confidence'', JNum (Fin (19 / 20)))]"
  let ?r = "result_of_raw lower_ascii_text exact_rounding ?raw"
  have g: "get_prop ?raw (ascii ''confidence'') = JNum (Fin (19 / 20))"
    "get_prop ?raw (ascii ''ingredients'') = JStr (ascii '' , '')" by (simp_all add: ascii_def)
  have i: "ingredients ?r = []"
    unfolding result_of_raw_def Let_def g
    by (simp add: normalizeIngredients_def array_from_set_def splits_def trim_def ascii_def
        isWhiteSpace_def is_newline_or_bullet_def is_semicolon_or_comma_def lower_ascii_text_def)
  have n: "normalizeConfidence exact_rounding (JNum (Fin (19 / 20))) = 19 / 20"
    by (simp add: normalizeConfidence_def toFixed3_def exact_rounding_def floor_rat_numeral)
  have k: "env_or (INTERFAZE_API_KEY env_with_key) [] \<noteq> []"
    "env_or (INTERFAZE_OCR_MODEL env_with_key) (ascii ''interfaze-beta'') = ascii ''interfaze-beta''"
    by (simp_all add: env_with_key_def env_or_def ascii_def)
  have c: "no_ingredients_json \<noteq> []" by (simp add: no_ingredients_json_def ascii_def)
  have a: "analyzeLabel lower_ascii_text exact_rounding (parse_as ?raw) env_with_key
             (answer_all (reply 200 no_ingredients_json)) (JStr (ascii ''data:image/png;base64,AA==''))
           = (Inr ?r, [\<lparr> model = ascii ''interfaze-beta'', format = JsonSchema \<rparr>])"
    unfolding analyzeLabel_def Let_def k
    using c k(1)
    by (simp add: answer_all_def ocr_result_of_response_def ok_def reply_def extract_envelope
        parse_as_def ascii_def[of "''data:image/png;base64,AA==''"])
  show ?thesis
    using confidence_capped_without_ingredients[OF double_rounding_exact,
        of lower_ascii_text ?raw "parse_as ?raw" env_with_key "answer_all (reply 200 no_ingredients_json)"
           "JStr (ascii ''data:image/png;base64,AA=='')" ?r
           "[\<lparr> model = ascii ''interfaze-beta'', format = JsonSchema \<rparr>]"]
      i a double_rounding_exact
    unfolding g n by (simp add: exact_rounding_def)
qed

section \<open>The explanation items\<close>

lemma source_strings_filter: "source_strings xs = filter (\<lambda>s. trim s \<noteq> []) (string_entries xs)"
  by (induction xs rule: source_strings.induct) simp_all

lemma map_filter_item:
  "List.map_filter (item_of_entry rd) es
     = map (\<lambda>e. the (item_of_entry rd e)) (filter (\<lambda>e. truthy e \<and> typeof_object e) es)"
proof -
  have "(\<lambda>e. item_of_entry rd e \<noteq> None) = (\<lambda>e. truthy e \<and> typeof_object e)"
    by (auto simp: item_of_entry_def)
  then show ?thesis by (simp add: List.map_filter_def comp_def)
qed

text \<open>
  Claim C5, as the code has it. \<open>normalizeItems\<close> returns the empty list for a value that
  is not a list. Of a list it drops the elements that are falsy or not of type object and
  keeps one item, in order, for every other element (an array counts as an object). In an
  item, \<open>name\<close> is the entry's \<open>name\<close> when that is a string and \<open>"Unknown"\<close> otherwise,
  \<open>function\<close> and \<open>why\<close> default to the empty string, \<open>sources\<close> keeps, unchanged and in
  order, the strings of the entry's list whose trimmed text is not empty (and is empty
  when the entry has no list), and \<open>risk_level\<close> is \<open>Unknown\<close> for every value that is
  not one of the literals; no entry is dropped for its \<open>risk_level\<close>.
\<close>

theorem normalizeItems_spec:
  "((\<forall>es. raw \<noteq> JArr es) \<longrightarrow> normalizeItems rd raw = [])
   \<and> normalizeItems rd (JArr es) =
       map (\<lambda>e. \<lparr> name = (case get_prop e (ascii ''name'') of JStr s \<Rightarrow> s | _ \<Rightarrow> ascii ''Unknown''),
                  fn = (case get_prop e (ascii ''function'') of JStr s \<Rightarrow> s | _ \<Rightarrow> []),
                  risk_level = normalizeRiskLevel (get_prop e (ascii ''risk_level'')),
                  why = (case get_prop e (ascii ''why'') of JStr s \<Rightarrow> s | _ \<Rightarrow> []),
                  certainty = normalizeCertainty rd (get_prop e (ascii ''certainty'')),
                  sources = (case get_prop e (ascii ''sources'') of
                               JArr xs \<Rightarrow> filter (\<lambda>s. trim s \<noteq> []) (string_entries xs)
                             | _ \<Rightarrow> []) \<rparr>)
           (filter (\<lambda>e. truthy e \<and> typeof_object e) es)
   \<and> (v \<noteq> JStr (ascii ''Green'') \<and> v \<noteq> JStr (ascii ''Yellow'') \<and> v \<noteq> JStr (ascii ''Red'')
        \<longrightarrow> normalizeRiskLevel v = Unknown)
   \<and> normalizeRiskLevel (JStr (ascii ''Green'')) = Green
   \<and> normalizeRiskLevel (JStr (ascii ''Yellow'')) = Yellow
   \<and> normalizeRiskLevel (JStr (ascii ''Red'')) = Red"
proof (intro conjI)
  show "(\<forall>es. raw \<noteq> JArr es) \<longrightarrow> normalizeItems rd raw = []"
    by (cases raw) (simp_all add: normalizeItems_def)
  have "\<And>e. truthy e \<and> typeof_object e \<Longrightarrow> the (item_of_entry rd e) =
           \<lparr> name = (case get_prop e (ascii ''name'') of JStr s \<Rightarrow> s | _ \<Rightarrow> ascii ''Unknown''),
                  fn = (case get_prop e (ascii ''function'') of JStr s \<Rightarrow> s | _ \<Rightarrow> []),
                  risk_level = normalizeRiskLevel (get_prop e (ascii ''risk_level'')),
                  why = (case get_prop e (ascii ''why'') of JStr s \<Rightarrow> s | _ \<Rightarrow> []),
                  certainty = normalizeCertainty rd (get_prop e (ascii ''certainty'')),
                  sources = (case get_prop e (ascii ''sources'') of
                               JArr xs \<Rightarrow> filter (\<lambda>s. trim s \<noteq> []) (string_entries xs)
                             | _ \<Rightarrow> []) \<rparr>"
    by (simp add: item_of_entry_def source_strings_filter cong: jsval.case_cong)
  then show "normalizeItems rd (JArr es) =
       map (\<lambda>e. \<lparr> name = (case get_prop e (ascii ''name'') of JStr s \<Rightarrow> s | _ \<Rightarrow> ascii ''Unknown''),
                  fn = (case get_prop e (ascii ''function'') of JStr s \<Rightarrow> s | _ \<Rightarrow> []),
                  risk_level = normalizeRiskLevel (get_prop e (ascii ''risk_level'')),
                  why = (case get_prop e (ascii ''why'') of JStr s \<Rightarrow> s | _ \<Rightarrow> []),
                  certainty = normalizeCertainty rd (get_prop e (ascii ''certainty'')),
                  sources = (case get_prop e (ascii ''sources'') of
                               JArr xs \<Rightarrow> filter (\<lambda>s. trim s \<noteq> []) (string_entries xs)
                             | _ \<Rightarrow> []) \<rparr>)
           (filter (\<lambda>e. truthy e \<and> typeof_object e) es)"
    by (simp add: normalizeItems_def map_filter_item)
  show "v \<noteq> JStr (ascii ''Green'') \<and> v \<noteq> JStr (ascii ''Yellow'') \<and> v \<noteq> JStr (ascii ''Red'')
        \<longrightarrow> normalizeRiskLevel v = Unknown"
    by (simp add: normalizeRiskLevel_def)
  show "normalizeRiskLevel (JStr (ascii ''Green'')) = Green"
    "normalizeRiskLevel (JStr (ascii ''Yellow'')) = Yellow"
    "normalizeRiskLevel (JStr (ascii ''Red'')) = Red"
    by (simp_all add: normalizeRiskLevel_def ascii_def)
qed

theorem normalizeItems_spec_witness:
  "normalizeItems exact_rounding (JStr (ascii ''none'')) = []
   \<and> normalizeItems exact_rounding
       (JArr [JNum (Fin 3), JObj [(ascii ''name'', JStr (ascii ''Salt'')), (ascii ''risk_level'', JStr (ascii ''green''))]])
     = [\<lparr> name = ascii ''Salt'', fn = [], risk_level = Unknown, why = [], certainty = 0, sources = [] \<rparr>]
   \<and> normalizeRiskLevel (JStr (ascii ''green'')) = Unknown"
  using normalizeItems_spec[of "JStr (ascii ''none'')" exact_rounding
      "[JNum (Fin 3), JObj [(ascii ''name'', JStr (ascii ''Salt'')), (ascii ''risk_level'', JStr (ascii ''green''))]]"
      "JStr (ascii ''green'')"]
  by (simp add: ascii_def normalizeCertainty_def)

text \<open>
  Claim C5 as stated fails where it says that the sources are trimmed strings: a source
  with white space around it is kept as it is.
\<close>

theorem normalizeItems_sources_not_trimmed:
  "normalizeItems exact_rounding (JArr [JObj [(ascii ''sources'', JArr [JStr (ascii '' kb:salt '')])]])
     = [\<lparr> name = ascii ''Unknown'', fn = [], risk_level = Unknown, why = [], certainty = 0,
          sources = [ascii '' kb:salt ''] \<rparr>]
   \<and> trim (ascii '' kb:salt '') \<noteq> ascii '' kb:salt ''"
  by (simp add: normalizeItems_def List.map_filter_def item_of_entry_def normalizeRiskLevel_def
      normalizeCertainty_def ascii_def trim_def isWhiteSpace_def)

section \<open>The explanation client\<close>

lemma fails_iff: "fails fetch c \<longleftrightarrow> (\<exists>r. fetch (buildRequestBody c) = Resolved r \<and> \<not> ok r)"
  by (auto simp: fails_def split: fetch_outcome.splits)

lemma try_candidates_fail_step:
  "fetch (buildRequestBody c) = Resolved r \<Longrightarrow> \<not> ok r \<Longrightarrow>
     try_candidates fetch (c # rest) ls lt =
       (fst (try_candidates fetch rest (Some (status r)) (error_text r)),
        buildRequestBody c # snd (try_candidates fetch rest (Some (status r)) (error_text r)))"
  by (simp add: Let_def)

lemma try_candidates_ok_step:
  "fetch (buildRequestBody c) = Resolved r \<Longrightarrow> ok r \<Longrightarrow>
     try_candidates fetch (c # rest) ls lt = (Inr (Some r, ls, lt), [buildRequestBody c])"
  by simp



lemma try_candidates_Inr:
  "try_candidates fetch cs ls lt = (Inr (resp, ls', lt'), sent) \<Longrightarrow>
     (case resp of
        None \<Rightarrow> (\<forall>c \<in> set cs. fails fetch c) \<and> sent = map buildRequestBody cs
      | Some r \<Rightarrow> ok r \<and> (\<exists>pre c post. cs = pre @ c # post \<and> (\<forall>p \<in> set pre. fails fetch p)
                    \<and> fetch (buildRequestBody c) = Resolved r \<and> sent = map buildRequestBody (pre @ [c])))"
proof (induction cs arbitrary: ls lt sent)
  case Nil
  then show ?case by simp
next
  case (Cons c rest)
  show ?case
  proof (cases "fetch (buildRequestBody c)")
    case (Resolved a)
    show ?thesis
    proof (cases "ok a")
      case True
      then have "resp = Some a" "sent = [buildRequestBody c]"
        using Cons.prems try_candidates_ok_step[of fetch c a, OF Resolved True] by simp_all
      moreover have "\<exists>pre d post. c # rest = pre @ d # post \<and> (\<forall>p \<in> set pre. fails fetch p)
                    \<and> fetch (buildRequestBody d) = Resolved a
                    \<and> [buildRequestBody c] = map buildRequestBody (pre @ [d])"
        using Resolved by (intro exI[of _ "[]"] exI[of _ c] exI[of _ rest]) simp
      ultimately show ?thesis using True by simp
    next
      case False
      let ?t = "try_candidates fetch rest (Some (status a)) (error_text a)"
      from Cons.prems try_candidates_fail_step[of fetch c a, OF Resolved False]
      have t: "?t = (Inr (resp, ls', lt'), tl sent)" and s: "sent = buildRequestBody c # tl sent"
        by (auto simp: prod_eq_iff)
      have f: "fails fetch c" using Resolved False by (auto simp: fails_iff)
      from Cons.IH[OF t] show ?thesis
      proof (cases resp)
        case None
        then show ?thesis using Cons.IH[OF t] f s by auto
      next
        case (Some r)
        with Cons.IH[OF t] obtain pre d post where p: "ok r" "rest = pre @ d # post"
          "\<forall>p \<in> set pre. fails fetch p" "fetch (buildRequestBody d) = Resolved r"
          "tl sent = map buildRequestBody (pre @ [d])" by auto
        have "c # rest = (c # pre) @ d # post" using p(2) by simp
        moreover have "\<forall>p \<in> set (c # pre). fails fetch p" using p(3) f by simp
        moreover have "sent = map buildRequestBody ((c # pre) @ [d])" using s p(5) by simp
        ultimately have "\<exists>pre' d' post'. c # rest = pre' @ d' # post' \<and> (\<forall>p \<in> set pre'. fails fetch p)
                    \<and> fetch (buildRequestBody d') = Resolved r
                    \<and> sent = map buildRequestBody (pre' @ [d'])"
          using p(4) by blast
        then show ?thesis using Some p(1) by simp
      qed
    qed
  qed (use Cons.prems in simp_all)
qed
















lemma explainIngredients_no_key:
  "env_or (INTERFAZE_API_KEY e) [] = [] \<Longrightarrow>
     explainIngredients lower rd parse w e fetch dat = (Inr DEFAULT_RESULT_explain, [])"
  by (simp add: explainIngredients_def)

lemma explainIngredients_unprepared:
  "env_or (INTERFAZE_API_KEY e) [] \<noteq> [] \<Longrightarrow> preparation lower w e dat = Some err \<Longrightarrow>
     explainIngredients lower rd parse w e fetch dat = (Inl err, [])"
  by (simp add: explainIngredients_def preparation_def split: sum.splits)

lemma explainIngredients_prepared:
  "env_or (INTERFAZE_API_KEY e) [] \<noteq> [] \<Longrightarrow> preparation lower w e dat = None \<Longrightarrow>
     explainIngredients lower rd parse w e fetch dat = explanation_of_candidates rd parse e fetch"
  by (simp add: explainIngredients_def preparation_def split: sum.splits)









lemma lower_ascii_text_values:
  "lower_ascii_text (ascii ''salt'') = ascii ''salt''"
  "lower_ascii_text (ascii ''sugar'') = ascii ''sugar''"
  "lower_ascii_text (ascii ''Salt'') = ascii ''salt''"
  "lower_ascii_text (ascii ''sodium chloride'') = ascii ''sodium chloride''"
  "lower_ascii_text [] = []"
  "lower_ascii_text [0xD83D] = [0xD83D]"
  by (simp_all add: lower_ascii_text_def ascii_lower_def ascii_def)

lemma pantry_entry:
  "glossary_item_matches lower_ascii_text needle
     (JObj [(ascii ''name'', JStr (ascii ''Salt'')),
            (ascii ''synonyms'', JArr [JStr (ascii ''sodium chloride'')])])
   = Inr (needle = ascii ''salt'' \<or> needle = ascii ''sodium chloride'')"
proof -
  have g: "get_prop (JObj [(ascii ''name'', JStr (ascii ''Salt'')),
                     (ascii ''synonyms'', JArr [JStr (ascii ''sodium chloride'')])]) (ascii ''name'')
             = JStr (ascii ''Salt'')"
    "get_prop (JObj [(ascii ''name'', JStr (ascii ''Salt'')),
                     (ascii ''synonyms'', JArr [JStr (ascii ''sodium chloride'')])]) (ascii ''synonyms'')
             = JArr [JStr (ascii ''sodium chloride'')]"
    by (simp_all add: ascii_def)
  show ?thesis unfolding glossary_item_matches_def g
    by (auto simp: lower_ascii_text_values Let_def)
qed

lemma pantry_matches:
  "\<exists>matches. matchGlossaryEntries lower_ascii_text ings (glossary_file pantry_world) = Inr matches"
proof -
  have "\<exists>matches. match_ingredients lower_ascii_text (glossary_file pantry_world) ings m
          = Inr matches" for m
    by (induction ings arbitrary: m)
      (simp_all add: pantry_world_def pantry_entry split: bool.splits)
  then show ?thesis unfolding matchGlossaryEntries_def by blast
qed

lemma pantry_risks:
  "\<exists>risks. applyRiskRules lower_ascii_text ings (rules_file pantry_world) = Inr risks"
proof -
  let ?rule = "JObj [(ascii ''pattern'', JStr (ascii ''sugar'')),
                     (ascii ''risk_level'', JStr (ascii ''Yellow'')),
                     (ascii ''reason'', JStr (ascii ''Added sugar.''))]"
  have g: "get_prop ?rule (ascii ''pattern'') = JStr (ascii ''sugar'')"
    "get_prop ?rule (ascii ''applies_to'') = JUndefined"
    by (simp_all add: ascii_def)
  have r: "rule_applies lower_ascii_text lw ?rule = Inr (includes_str lw (ascii ''sugar''))" for lw
    unfolding rule_applies_def g by (simp add: lower_ascii_text_values)
  have "\<exists>risks. apply_rules lower_ascii_text (rules_file pantry_world) ings m = Inr risks" for m
    by (induction ings arbitrary: m) (simp_all add: pantry_world_def r)
  then show ?thesis unfolding applyRiskRules_def by blast
qed

lemma preparation_pantry:
  assumes "WEB_FETCH_ENABLED e = None"
  shows "preparation lower_ascii_text pantry_world e salt_label = None"
proof -
  have f: "\<not> shouldFetchExternally lower_ascii_text e"
    using assms by (simp add: shouldFetchExternally_def env_or_def lower_ascii_text_values ascii_def)
  from pantry_matches[of "ingredients salt_label"] pantry_risks[of "ingredients salt_label"] f
  show ?thesis unfolding preparation_def by (auto simp: fetchExternalRecords_def)
qed





lemma explanation_of_response_Inr:
  "explanation_of_response rd parse e resp = Inr r \<Longrightarrow>
     r = DEFAULT_RESULT_explain \<or>
     (\<exists>payload raw. body_json resp = Some payload \<and> parse (extractMessageContent payload) = Some raw
        \<and> explanation_of_raw rd raw = Inr r)"
  by (auto simp: explanation_of_response_def Let_def split: option.splits if_splits)

lemma candidates_Inr:
  assumes a: "explanation_of_candidates rd parse e fetch = (Inr r, sent)"
  shows "r = DEFAULT_RESULT_explain \<or>
     (\<exists>c resp payload raw. c \<in> set (modelsToTry e) \<and> fetch (buildRequestBody c) = Resolved resp
        \<and> ok resp \<and> body_json resp = Some payload
        \<and> parse (extractMessageContent payload) = Some raw
        \<and> explanation_of_raw rd raw = Inr r)"
proof -
  obtain res sent' where t: "try_candidates fetch (modelsToTry e) None [] = (res, sent')"
    by (cases "try_candidates fetch (modelsToTry e) None []") auto
  show ?thesis
  proof (cases res)
    case (Inl err)
    then show ?thesis using a t by (simp add: explanation_of_candidates_def)
  next
    case (Inr st)
    obtain resp ls' lt' where st: "st = (resp, ls', lt')" by (cases st) auto
    from t Inr st have t': "try_candidates fetch (modelsToTry e) None [] = (Inr (resp, ls', lt'), sent')"
      by simp
    show ?thesis
    proof (cases resp)
      case None
      then show ?thesis using a t'
        by (simp add: explanation_of_candidates_def explanation_of_attempts_def)
    next
      case (Some x)
      with try_candidates_Inr[OF t'] obtain pre c post where p: "ok x"
        "modelsToTry e = pre @ c # post" "fetch (buildRequestBody c) = Resolved x" by auto
      have "explanation_of_response rd parse e x = Inr r"
        using a t' Some p(1) by (simp add: explanation_of_candidates_def explanation_of_attempts_def)
      from explanation_of_response_Inr[OF this] show ?thesis
      proof
        assume "r = DEFAULT_RESULT_explain" then show ?thesis by simp
      next
        assume "\<exists>payload raw. body_json x = Some payload \<and> parse (extractMessageContent payload) = Some raw
          \<and> explanation_of_raw rd raw = Inr r"
        then obtain payload raw where "body_json x = Some payload"
          "parse (extractMessageContent payload) = Some raw" "explanation_of_raw rd raw = Inr r" by blast
        moreover have "c \<in> set (modelsToTry e)" using p(2) by simp
        ultimately show ?thesis using p(1,3) by blast
      qed
    qed
  qed
qed

lemma explainIngredients_Inr:
  assumes a: "explainIngredients lower rd parse w e fetch dat = (Inr r, sent)"
  shows "r = DEFAULT_RESULT_explain \<or>
     (\<exists>c resp payload raw. c \<in> set (modelsToTry e) \<and> fetch (buildRequestBody c) = Resolved resp
        \<and> ok resp \<and> body_json resp = Some payload
        \<and> parse (extractMessageContent payload) = Some raw
        \<and> explanation_of_raw rd raw = Inr r)"
proof (cases "env_or (INTERFAZE_API_KEY e) [] = []")
  case True
  then show ?thesis using a by (simp add: explainIngredients_no_key)
next
  case False
  show ?thesis
  proof (cases "preparation lower w e dat")
    case None
    then show ?thesis using a candidates_Inr[of rd parse e fetch r sent]
      by (simp add: explainIngredients_prepared[OF False None])
  next
    case (Some err)
    then show ?thesis using a by (simp add: explainIngredients_unprepared[OF False Some])
  qed
qed

lemma explanation_of_raw_Inr:
  "explanation_of_raw rd raw = Inr r \<Longrightarrow>
     summary r = (case get_prop raw (ascii ''summary'') of
                    JStr s \<Rightarrow> s | _ \<Rightarrow> summary DEFAULT_RESULT_explain)
     \<and> disclaimer r = (case get_prop raw (ascii ''disclaimer'') of
                    JStr s \<Rightarrow> s | _ \<Rightarrow> disclaimer DEFAULT_RESULT_explain)
     \<and> items r = normalizeItems rd (get_prop raw (ascii ''items''))"
  by (auto simp: explanation_of_raw_def split: if_splits)

lemma default_texts_nonempty:
  "summary DEFAULT_RESULT_explain \<noteq> [] \<and> disclaimer DEFAULT_RESULT_explain \<noteq> []"
  by (simp add: DEFAULT_RESULT_explain_def ascii_def)

text \<open>
  Claim C1, as the code has it. The result built from a parsed value uses the raw
  \<open>summary\<close> and the raw \<open>disclaimer\<close> whenever each is a string, the empty string
  included, and the default text otherwise, each independently of the other; every parsed
  value other than \<open>null\<close> gives a result. Every result that \<open>explainIngredients\<close> returns is
  the default result or is built from the parsed content of a successful response, and
  its disclaimer is empty only when the raw disclaimer of that content is the empty
  string. The default disclaimer is not empty.
\<close>

theorem explanation_summary_disclaimer:
  "(explanation_of_raw rd raw = Inr r \<longrightarrow>
      (get_prop raw (ascii ''summary'') = JStr s \<longrightarrow> summary r = s)
      \<and> ((\<forall>t. get_prop raw (ascii ''summary'') \<noteq> JStr t) \<longrightarrow>
            summary r = summary DEFAULT_RESULT_explain)
      \<and> (get_prop raw (ascii ''disclaimer'') = JStr d \<longrightarrow> disclaimer r = d)
      \<and> ((\<forall>t. get_prop raw (ascii ''disclaimer'') \<noteq> JStr t) \<longrightarrow>
            disclaimer r = disclaimer DEFAULT_RESULT_explain)
      \<and> (disclaimer r = [] \<longleftrightarrow> get_prop raw (ascii ''disclaimer'') = JStr []))
   \<and> (raw \<noteq> JNull \<and> raw \<noteq> JUndefined \<longrightarrow> (\<exists>x. explanation_of_raw rd raw = Inr x))
   \<and> (explainIngredients lower rd parse w e fetch dat = (Inr r, sent) \<longrightarrow>
        r = DEFAULT_RESULT_explain \<or>
        (\<exists>c resp payload raw. c \<in> set (modelsToTry e) \<and> fetch (buildRequestBody c) = Resolved resp
           \<and> ok resp \<and> body_json resp = Some payload
           \<and> parse (extractMessageContent payload) = Some raw
           \<and> explanation_of_raw rd raw = Inr r))
   \<and> (explainIngredients lower rd parse w e fetch dat = (Inr r, sent) \<and> disclaimer r = [] \<longrightarrow>
        (\<exists>c resp payload raw. c \<in> set (modelsToTry e) \<and> fetch (buildRequestBody c) = Resolved resp
           \<and> ok resp \<and> body_json resp = Some payload
           \<and> parse (extractMessageContent payload) = Some raw
           \<and> get_prop raw (ascii ''disclaimer'') = JStr []))
   \<and> disclaimer DEFAULT_RESULT_explain \<noteq> []"
proof -
  have raw_fields: "(get_prop raw (ascii ''summary'') = JStr s \<longrightarrow> summary r = s)
      \<and> ((\<forall>t. get_prop raw (ascii ''summary'') \<noteq> JStr t) \<longrightarrow>
            summary r = summary DEFAULT_RESULT_explain)
      \<and> (get_prop raw (ascii ''disclaimer'') = JStr d \<longrightarrow> disclaimer r = d)
      \<and> ((\<forall>t. get_prop raw (ascii ''disclaimer'') \<noteq> JStr t) \<longrightarrow>
            disclaimer r = disclaimer DEFAULT_RESULT_explain)
      \<and> (disclaimer r = [] \<longleftrightarrow> get_prop raw (ascii ''disclaimer'') = JStr [])"
    if a: "explanation_of_raw rd raw = Inr r" for raw r
    using explanation_of_raw_Inr[OF a] default_texts_nonempty
    by (cases "get_prop raw (ascii ''summary'')"; cases "get_prop raw (ascii ''disclaimer'')") simp_all
  have total: "raw \<noteq> JNull \<and> raw \<noteq> JUndefined \<longrightarrow> (\<exists>x. explanation_of_raw rd raw = Inr x)"
    by (simp add: explanation_of_raw_def)
  have ret: "r = DEFAULT_RESULT_explain \<or>
        (\<exists>c resp payload raw. c \<in> set (modelsToTry e) \<and> fetch (buildRequestBody c) = Resolved resp
           \<and> ok resp \<and> body_json resp = Some payload
           \<and> parse (extractMessageContent payload) = Some raw
           \<and> explanation_of_raw rd raw = Inr r)"
    if "explainIngredients lower rd parse w e fetch dat = (Inr r, sent)"
    using explainIngredients_Inr[OF that] .
  have empty: "\<exists>c resp payload raw. c \<in> set (modelsToTry e) \<and> fetch (buildRequestBody c) = Resolved resp
           \<and> ok resp \<and> body_json resp = Some payload
           \<and> parse (extractMessageContent payload) = Some raw
           \<and> get_prop raw (ascii ''disclaimer'') = JStr []"
    if h: "explainIngredients lower rd parse w e fetch dat = (Inr r, sent)" and d: "disclaimer r = []"
  proof -
    from ret[OF h] d default_texts_nonempty
    obtain c resp payload raw' where p: "c \<in> set (modelsToTry e)"
      "fetch (buildRequestBody c) = Resolved resp" "ok resp" "body_json resp = Some payload"
      "parse (extractMessageContent payload) = Some raw'" "explanation_of_raw rd raw' = Inr r"
      by auto
    have "get_prop raw' (ascii ''disclaimer'') = JStr []" using raw_fields[OF p(6)] d by simp
    then show ?thesis using p by blast
  qed
  show ?thesis using raw_fields total ret empty default_texts_nonempty by blast
qed

lemma modelsToTry_env_with_key: "modelsToTry env_with_key = [ascii ''interfaze-beta'']"
  by (simp add: modelsToTry_def env_with_key_def env_or_def trim_def array_from_set_def
      set_add_def ascii_def)

lemma explainIngredients_single:
  assumes "content \<noteq> []" "raw \<noteq> JNull" "raw \<noteq> JUndefined"
    and prep: "preparation lower w env_with_key dat = None"
  shows "explainIngredients lower rd (parse_as raw) w env_with_key (answer_all (reply 200 content)) dat
     = (explanation_of_raw rd raw, [\<lparr> model = ascii ''interfaze-beta'', format = JsonSchema \<rparr>])"
proof -
  have k: "env_or (INTERFAZE_API_KEY env_with_key) [] \<noteq> []"
    by (simp add: env_with_key_def env_or_def ascii_def)
  have o: "ok (reply 200 content)" by (simp add: ok_def reply_def)
  have "envelope content \<noteq> JNull" by (simp add: envelope_def)
  then have r: "explanation_of_response rd (parse_as raw) env_with_key (reply 200 content)
      = explanation_of_raw rd raw"
    using assms by (simp add: explanation_of_response_def reply_def extract_envelope parse_as_def Let_def)
  show ?thesis
    using o r unfolding explainIngredients_prepared[OF k prep] explanation_of_candidates_def
      modelsToTry_env_with_key
    by (simp add: answer_all_def explanation_of_attempts_def buildRequestBody_def)
qed

lemma preparation_pantry_key:
  "preparation lower_ascii_text pantry_world env_with_key salt_label = None"
  by (rule preparation_pantry) (simp add: env_with_key_def)

theorem explanation_summary_disclaimer_witness:
  "explainIngredients lower_ascii_text exact_rounding
      (parse_as (JObj [(ascii ''summary'', JStr (ascii ''Two ingredients.'')),
                       (ascii ''disclaimer'', JNum (Fin 5))]))
      pantry_world env_with_key (answer_all (reply 200 summary_number_json)) salt_label
     = (Inr \<lparr> summary = ascii ''Two ingredients.'', items = [],
              disclaimer = ascii ''This is not medical advice.'' \<rparr>,
        [\<lparr> model = ascii ''interfaze-beta'', format = JsonSchema \<rparr>])
   \<and> disclaimer \<lparr> summary = ascii ''Two ingredients.'', items = [],
              disclaimer = ascii ''This is not medical advice.'' \<rparr> \<noteq> []"
proof -
  let ?raw = "JObj [(ascii ''summary'', JStr (ascii ''Two ingredients.'')),
                       (ascii ''disclaimer'', JNum (Fin 5))]"
  let ?r = "\<lparr> summary = ascii ''Two ingredients.'', items = [],
              disclaimer = ascii ''This is not medical advice.'' \<rparr>"
  have c: "summary_number_json \<noteq> []" by (simp add: summary_number_json_def ascii_def)
  have g: "get_prop ?raw (ascii ''summary'') = JStr (ascii ''Two ingredients.'')"
    "get_prop ?raw (ascii ''disclaimer'') = JNum (Fin 5)"
    "get_prop ?raw (ascii ''items'') = JUndefined" by (simp_all add: ascii_def)
  have x: "explanation_of_raw exact_rounding ?raw = Inr ?r"
    unfolding explanation_of_raw_def g
    by (simp add: DEFAULT_RESULT_explain_def normalizeItems_def)
  have run: "explainIngredients lower_ascii_text exact_rounding (parse_as ?raw) pantry_world
      env_with_key (answer_all (reply 200 summary_number_json)) salt_label
     = (Inr ?r, [\<lparr> model = ascii ''interfaze-beta'', format = JsonSchema \<rparr>])"
    using explainIngredients_single[OF c _ _ preparation_pantry_key, of ?raw exact_rounding] x
    by simp
  have "disclaimer ?r = disclaimer DEFAULT_RESULT_explain"
    using explanation_summary_disclaimer[where rd = exact_rounding and raw = ?raw and r = ?r
        and s = "ascii ''Two ingredients.''" and d = "[]" and lower = lower_ascii_text
        and parse = "parse_as ?raw" and w = pantry_world and e = env_with_key
        and fetch = "answer_all (reply 200 summary_number_json)" and dat = salt_label
        and sent = "[\<lparr> model = ascii ''interfaze-beta'', format = JsonSchema \<rparr>]"] x g(2)
    by simp
  then show ?thesis using run by (simp add: DEFAULT_RESULT_explain_def ascii_def)
qed

text \<open>
  Claim C1 as stated fails for an upstream object whose \<open>disclaimer\<close> is the empty string:
  the empty string is used, and the result carries an empty disclaimer.
\<close>

theorem explanation_empty_disclaimer:
  "explainIngredients lower_ascii_text exact_rounding
      (parse_as (JObj [(ascii ''summary'', JStr []), (ascii ''disclaimer'', JStr [])]))
      pantry_world env_with_key (answer_all (reply 200 empty_texts_json)) salt_label
     = (Inr \<lparr> summary = [], items = [], disclaimer = [] \<rparr>,
        [\<lparr> model = ascii ''interfaze-beta'', format = JsonSchema \<rparr>])"
proof -
  let ?raw = "JObj [(ascii ''summary'', JStr []), (ascii ''disclaimer'', JStr [])]"
  have c: "empty_texts_json \<noteq> []" by (simp add: empty_texts_json_def ascii_def)
  have g: "get_prop ?raw (ascii ''summary'') = JStr []"
    "get_prop ?raw (ascii ''disclaimer'') = JStr []"
    "get_prop ?raw (ascii ''items'') = JUndefined" by (simp_all add: ascii_def)
  have x: "explanation_of_raw exact_rounding ?raw = Inr \<lparr> summary = [], items = [], disclaimer = [] \<rparr>"
    unfolding explanation_of_raw_def g by (simp add: normalizeItems_def)
  show ?thesis
    using explainIngredients_single[OF c _ _ preparation_pantry_key, of ?raw exact_rounding] x
    by simp
qed

section \<open>The attempts of the extraction client\<close>

lemma ocr_result_of_response_failure:
  "\<not> ok r \<Longrightarrow> ocr_result_of_response lower rd parse r = Inl (ApiError (status r) (error_text r))"
  by (simp add: ocr_result_of_response_def)

lemma ocr_result_of_reply:
  "content \<noteq> [] \<Longrightarrow>
     ocr_result_of_response lower rd (parse_as raw) (reply 200 content)
       = Inr (result_of_raw lower rd raw)"
  by (simp add: ocr_result_of_response_def ok_def reply_def extract_envelope parse_as_def)

lemma analyzeLabel_sent_le: "length (snd (analyzeLabel lower rd parse e fetch image_url)) \<le> 2"
  unfolding analyzeLabel_def Let_def
  by (simp split: fetch_outcome.splits)

text \<open>
  Claim C7. For a valid image reference and a configured credential, whatever the first
  response is: a success is used at once; a failure with status 400 or 422 is followed by
  exactly one more request, the same but for the relaxed response format, and the
  response to it decides, a failure being the terminal error with its status and body; a
  failure with any other status is the terminal error with its status and body, without
  a retry. No call sends more than two requests.
\<close>

theorem analyzeLabel_attempts:
  assumes url: "image_url = JStr u" "u \<noteq> []"
    and key: "env_or (INTERFAZE_API_KEY e) [] \<noteq> []"
    and m: "m = env_or (INTERFAZE_OCR_MODEL e) (ascii ''interfaze-beta'')"
    and first: "fetch \<lparr> model = m, format = JsonSchema \<rparr> = Resolved first"
  shows
    "(ok first \<longrightarrow>
        analyzeLabel lower rd parse e fetch image_url
          = (ocr_result_of_response lower rd parse first, [\<lparr> model = m, format = JsonSchema \<rparr>]))
     \<and> (\<not> ok first \<and> status first \<noteq> 400 \<and> status first \<noteq> 422 \<longrightarrow>
        analyzeLabel lower rd parse e fetch image_url
          = (Inl (ApiError (status first) (error_text first)), [\<lparr> model = m, format = JsonSchema \<rparr>]))
     \<and> ((status first = 400 \<or> status first = 422)
          \<and> fetch \<lparr> model = m, format = JsonObject \<rparr> = Resolved second \<longrightarrow>
        analyzeLabel lower rd parse e fetch image_url
          = (ocr_result_of_response lower rd parse second,
             [\<lparr> model = m, format = JsonSchema \<rparr>, \<lparr> model = m, format = JsonObject \<rparr>])
        \<and> (\<not> ok second \<longrightarrow>
             analyzeLabel lower rd parse e fetch image_url
               = (Inl (ApiError (status second) (error_text second)),
                  [\<lparr> model = m, format = JsonSchema \<rparr>, \<lparr> model = m, format = JsonObject \<rparr>])))
     \<and> length (snd (analyzeLabel lower rd parse e fetch image_url)) \<le> 2"
proof (intro conjI impI)
  assume "ok first"
  then show "analyzeLabel lower rd parse e fetch image_url
          = (ocr_result_of_response lower rd parse first, [\<lparr> model = m, format = JsonSchema \<rparr>])"
    using url key first unfolding analyzeLabel_def Let_def m by simp
next
  assume a: "\<not> ok first \<and> status first \<noteq> 400 \<and> status first \<noteq> 422"
  then show "analyzeLabel lower rd parse e fetch image_url
          = (Inl (ApiError (status first) (error_text first)), [\<lparr> model = m, format = JsonSchema \<rparr>])"
    using url key first ocr_result_of_response_failure[of first lower rd parse]
    unfolding analyzeLabel_def Let_def m by simp
next
  assume a: "(status first = 400 \<or> status first = 422)
          \<and> fetch \<lparr> model = m, format = JsonObject \<rparr> = Resolved second"
  then have n: "\<not> ok first" by (auto simp: ok_def)
  show run: "analyzeLabel lower rd parse e fetch image_url
          = (ocr_result_of_response lower rd parse second,
             [\<lparr> model = m, format = JsonSchema \<rparr>, \<lparr> model = m, format = JsonObject \<rparr>])"
    using url key first a n unfolding analyzeLabel_def Let_def m by auto
  assume "\<not> ok second"
  then show "analyzeLabel lower rd parse e fetch image_url
               = (Inl (ApiError (status second) (error_text second)),
                  [\<lparr> model = m, format = JsonSchema \<rparr>, \<lparr> model = m, format = JsonObject \<rparr>])"
    using run ocr_result_of_response_failure[of second lower rd parse] by simp
next
  show "length (snd (analyzeLabel lower rd parse e fetch image_url)) \<le> 2"
    by (rule analyzeLabel_sent_le)
qed

theorem analyzeLabel_attempts_witness:
  "analyzeLabel lower_ascii_text exact_rounding (parse_as (JObj [])) env_with_key
      (answer_by_format (reply 422 (ascii ''no schema'')) (reply 503 (ascii ''down'')))
      (JStr (ascii ''https://example.org/label.png''))
     = (Inl (ApiError 503 (ascii ''down'')),
        [\<lparr> model = ascii ''interfaze-beta'', format = JsonSchema \<rparr>,
         \<lparr> model = ascii ''interfaze-beta'', format = JsonObject \<rparr>])
   \<and> analyzeLabel lower_ascii_text exact_rounding (parse_as (JObj [])) env_with_key
      (answer_by_format (reply 400 (ascii ''no schema'')) (reply 200 (ascii ''{}'')))
      (JStr (ascii ''https://example.org/label.png''))
     = (Inr (result_of_raw lower_ascii_text exact_rounding (JObj [])),
        [\<lparr> model = ascii ''interfaze-beta'', format = JsonSchema \<rparr>,
         \<lparr> model = ascii ''interfaze-beta'', format = JsonObject \<rparr>])
   \<and> analyzeLabel lower_ascii_text exact_rounding (parse_as (JObj [])) env_with_key
      (answer_by_format (reply 500 (ascii ''busy'')) (reply 200 (ascii ''{}'')))
      (JStr (ascii ''https://example.org/label.png''))
     = (Inl (ApiError 500 (ascii ''busy'')),
        [\<lparr> model = ascii ''interfaze-beta'', format = JsonSchema \<rparr>])"
proof -
  let ?u = "ascii ''https://example.org/label.png''"
  let ?m = "ascii ''interfaze-beta''"
  let ?f1 = "answer_by_format (reply 422 (ascii ''no schema'')) (reply 503 (ascii ''down''))"
  let ?f2 = "answer_by_format (reply 500 (ascii ''busy'')) (reply 200 (ascii ''{}''))"
  let ?f3 = "answer_by_format (reply 400 (ascii ''no schema'')) (reply 200 (ascii ''{}''))"
  have u: "?u \<noteq> []" by (simp add: ascii_def)
  have key: "env_or (INTERFAZE_API_KEY env_with_key) [] \<noteq> []"
    by (simp add: env_with_key_def env_or_def ascii_def)
  have m: "?m = env_or (INTERFAZE_OCR_MODEL env_with_key) (ascii ''interfaze-beta'')"
    by (simp add: env_with_key_def env_or_def)
  have a1: "?f1 \<lparr> model = ?m, format = JsonSchema \<rparr> = Resolved (reply 422 (ascii ''no schema''))"
    "?f1 \<lparr> model = ?m, format = JsonObject \<rparr> = Resolved (reply 503 (ascii ''down''))"
    "?f2 \<lparr> model = ?m, format = JsonSchema \<rparr> = Resolved (reply 500 (ascii ''busy''))"
    "?f3 \<lparr> model = ?m, format = JsonSchema \<rparr> = Resolved (reply 400 (ascii ''no schema''))"
    "?f3 \<lparr> model = ?m, format = JsonObject \<rparr> = Resolved (reply 200 (ascii ''{}''))"
    by (simp_all add: answer_by_format_def)
  have s: "status (reply 422 (ascii ''no schema'')) = 422" "\<not> ok (reply 503 (ascii ''down''))"
    "\<not> ok (reply 500 (ascii ''busy''))" "status (reply 500 (ascii ''busy'')) = 500"
    "status (reply 503 (ascii ''down'')) = 503"
    "error_text (reply 503 (ascii ''down'')) = ascii ''down''"
    "error_text (reply 500 (ascii ''busy'')) = ascii ''busy''"
    "status (reply 400 (ascii ''no schema'')) = 400"
    by (simp_all add: reply_def ok_def error_text_def)
  have e: "ascii ''{}'' \<noteq> []" by (simp add: ascii_def)
  have 1: "analyzeLabel lower_ascii_text exact_rounding (parse_as (JObj [])) env_with_key ?f1 (JStr ?u)
     = (Inl (ApiError (status (reply 503 (ascii ''down''))) (error_text (reply 503 (ascii ''down'')))),
        [\<lparr> model = ?m, format = JsonSchema \<rparr>, \<lparr> model = ?m, format = JsonObject \<rparr>])"
    using analyzeLabel_attempts[where fetch = "?f1" and second = "reply 503 (ascii ''down'')"
        and lower = lower_ascii_text and rd = exact_rounding and parse = "parse_as (JObj [])",
        OF refl u key m a1(1)] a1(2) s(1,2) by blast
  have 2: "analyzeLabel lower_ascii_text exact_rounding (parse_as (JObj [])) env_with_key ?f2 (JStr ?u)
     = (Inl (ApiError (status (reply 500 (ascii ''busy''))) (error_text (reply 500 (ascii ''busy'')))),
        [\<lparr> model = ?m, format = JsonSchema \<rparr>])"
    using analyzeLabel_attempts[where fetch = "?f2" and second = "reply 200 (ascii ''{}'')"
        and lower = lower_ascii_text and rd = exact_rounding and parse = "parse_as (JObj [])",
        OF refl u key m a1(3)] s(3,4) by simp
  have 3: "analyzeLabel lower_ascii_text exact_rounding (parse_as (JObj [])) env_with_key ?f3 (JStr ?u)
     = (ocr_result_of_response lower_ascii_text exact_rounding (parse_as (JObj [])) (reply 200 (ascii ''{}'')),
        [\<lparr> model = ?m, format = JsonSchema \<rparr>, \<lparr> model = ?m, format = JsonObject \<rparr>])"
    using analyzeLabel_attempts[where fetch = "?f3" and second = "reply 200 (ascii ''{}'')"
        and lower = lower_ascii_text and rd = exact_rounding and parse = "parse_as (JObj [])",
        OF refl u key m a1(4)] a1(5) s(8) by blast
  show ?thesis using 1 2 3 unfolding s ocr_result_of_reply[OF e] by simp
qed

section \<open>The domain lookup fetch\<close>

lemma isWhitelisted_iff:
  "isWhitelisted hostname url \<longleftrightarrow>
     (\<exists>h. hostname url = Some h \<and>
        (h = ascii ''openfoodfacts.org'' \<or> endsWith h (ascii ''.openfoodfacts.org'')
         \<or> h = ascii ''openbeautyfacts.org'' \<or> endsWith h (ascii ''.openbeautyfacts.org'')))"
  by (auto simp: isWhitelisted_def WHITELIST_def ascii_def split: option.splits)

lemma fetch_json_rejected:
  "\<not> isWhitelisted hostname url \<Longrightarrow> fetch_json hostname fetch url hdrs = (Inl (UrlNotAllowed url), [])"
  by (simp add: fetch_json_def)

lemma fetch_json_sent:
  "isWhitelisted hostname url \<Longrightarrow> snd (fetch_json hostname fetch url hdrs) = [(url, hdrs)]"
  by (simp add: fetch_json_def)

lemma fetch_json_Inr:
  "fetch_json hostname fetch url hdrs = (Inr body, sent) \<Longrightarrow>
     isWhitelisted hostname url \<and>
     (\<exists>r ct. fetch url hdrs = Resolved r \<and> ok r \<and> content_type r = Some ct
        \<and> includes_str ct (ascii ''application/json'') \<and> body_json r = Some body)"
  by (auto simp: fetch_json_def split: if_splits fetch_outcome.splits option.splits)

lemma fetch_json_success:
  assumes "isWhitelisted hostname url" "fetch url hdrs = Resolved r" "ok r"
    "content_type r = Some ct" "includes_str ct (ascii ''application/json'')" "body_json r = Some body"
  shows "fetch_json hostname fetch url hdrs = (Inr body, [(url, hdrs)])"
proof -
  have "ct \<noteq> []" using assms(5) by (cases ct) (auto simp: ascii_def)
  then show ?thesis using assms by (simp add: fetch_json_def)
qed

lemma evil_not_whitelisted:
  "hostname url = Some (ascii ''evil.com'') \<Longrightarrow> \<not> isWhitelisted hostname url"
  by (simp add: isWhitelisted_def WHITELIST_def endsWith_def ascii_def)

lemma world_off_whitelisted:
  "hostname url = Some (ascii ''world.openfoodfacts.org'') \<Longrightarrow> isWhitelisted hostname url"
  by (simp add: isWhitelisted_def WHITELIST_def endsWith_def ascii_def)

lemma html_not_json: "\<not> includes_str (ascii ''text/html'') (ascii ''application/json'')"
  by (simp add: ascii_def)

text \<open>
  Claim C8. A URL is allowed exactly when its host name is one of the two domains or ends
  with a dot followed by one of them. For a URL that is not allowed \<open>fetch_json\<close> raises
  without sending a request (so for the host \<open>evil.com\<close>); for an allowed one (so for
  \<open>world.openfoodfacts.org\<close>) it sends one request. It returns a value only when the
  response has a success status and a content type that contains \<open>application/json\<close>,
  and then the value is the parsed body; a response of type \<open>text/html\<close> is rejected even
  with status 200.
\<close>

theorem fetch_json_spec:
  "(isWhitelisted hostname url \<longleftrightarrow>
     (\<exists>h. hostname url = Some h \<and>
        (h = ascii ''openfoodfacts.org'' \<or> endsWith h (ascii ''.openfoodfacts.org'')
         \<or> h = ascii ''openbeautyfacts.org'' \<or> endsWith h (ascii ''.openbeautyfacts.org''))))
   \<and> (\<not> isWhitelisted hostname url \<longrightarrow>
         fetch_json hostname fetch url hdrs = (Inl (UrlNotAllowed url), []))
   \<and> (isWhitelisted hostname url \<longrightarrow> snd (fetch_json hostname fetch url hdrs) = [(url, hdrs)])
   \<and> (fetch_json hostname fetch url hdrs = (Inr body, sent) \<longrightarrow>
         isWhitelisted hostname url \<and>
         (\<exists>r ct. fetch url hdrs = Resolved r \<and> ok r \<and> content_type r = Some ct
            \<and> includes_str ct (ascii ''application/json'') \<and> body_json r = Some body))
   \<and> (isWhitelisted hostname url \<and> fetch url hdrs = Resolved r \<and> ok r
        \<and> content_type r = Some ct \<and> includes_str ct (ascii ''application/json'')
        \<and> body_json r = Some body
       \<longrightarrow> fetch_json hostname fetch url hdrs = (Inr body, [(url, hdrs)]))
   \<and> (hostname url = Some (ascii ''evil.com'') \<longrightarrow>
         fetch_json hostname fetch url hdrs = (Inl (UrlNotAllowed url), []))
   \<and> (hostname url = Some (ascii ''world.openfoodfacts.org'') \<longrightarrow> isWhitelisted hostname url)
   \<and> (hostname url = Some (ascii ''world.openfoodfacts.org'') \<and> fetch url hdrs = Resolved r
        \<and> status r = 200 \<and> content_type r = Some (ascii ''text/html'')
       \<longrightarrow> fetch_json hostname fetch url hdrs = (Inl ResponseNotJson, [(url, hdrs)]))"
proof (intro conjI impI)
  show "isWhitelisted hostname url \<longleftrightarrow>
     (\<exists>h. hostname url = Some h \<and>
        (h = ascii ''openfoodfacts.org'' \<or> endsWith h (ascii ''.openfoodfacts.org'')
         \<or> h = ascii ''openbeautyfacts.org'' \<or> endsWith h (ascii ''.openbeautyfacts.org'')))"
    by (rule isWhitelisted_iff)
next
  assume "\<not> isWhitelisted hostname url"
  then show "fetch_json hostname fetch url hdrs = (Inl (UrlNotAllowed url), [])"
    by (rule fetch_json_rejected)
next
  assume "isWhitelisted hostname url"
  then show "snd (fetch_json hostname fetch url hdrs) = [(url, hdrs)]" by (rule fetch_json_sent)
next
  assume a: "fetch_json hostname fetch url hdrs = (Inr body, sent)"
  show "isWhitelisted hostname url" using fetch_json_Inr[OF a] by simp
  show "\<exists>r ct. fetch url hdrs = Resolved r \<and> ok r \<and> content_type r = Some ct
            \<and> includes_str ct (ascii ''application/json'') \<and> body_json r = Some body"
    using fetch_json_Inr[OF a] by simp
next
  assume "isWhitelisted hostname url \<and> fetch url hdrs = Resolved r \<and> ok r
        \<and> content_type r = Some ct \<and> includes_str ct (ascii ''application/json'')
        \<and> body_json r = Some body"
  then show "fetch_json hostname fetch url hdrs = (Inr body, [(url, hdrs)])"
    using fetch_json_success[of hostname url fetch hdrs r ct body] by simp
next
  assume "hostname url = Some (ascii ''evil.com'')"
  then show "fetch_json hostname fetch url hdrs = (Inl (UrlNotAllowed url), [])"
    using evil_not_whitelisted fetch_json_rejected by blast
next
  assume "hostname url = Some (ascii ''world.openfoodfacts.org'')"
  then show "isWhitelisted hostname url" by (rule world_off_whitelisted)
next
  assume a: "hostname url = Some (ascii ''world.openfoodfacts.org'') \<and> fetch url hdrs = Resolved r
        \<and> status r = 200 \<and> content_type r = Some (ascii ''text/html'')"
  then have w: "isWhitelisted hostname url" using world_off_whitelisted by blast
  show "fetch_json hostname fetch url hdrs = (Inl ResponseNotJson, [(url, hdrs)])"
    using a w html_not_json by (simp add: fetch_json_def ok_def)
qed

theorem fetch_json_spec_witness:
  "fetch_json (hostname_is (ascii ''evil.com''))
      (answer_get \<lparr> status = 200, content_type = Some (ascii ''application/json''),
                    body_text = None, body_json = Some (JObj []) \<rparr>)
      (ascii ''https://evil.com/x'') None
     = (Inl (UrlNotAllowed (ascii ''https://evil.com/x'')), [])
   \<and> fetch_json (hostname_is (ascii ''world.openfoodfacts.org''))
      (answer_get \<lparr> status = 200, content_type = Some (ascii ''application/json; charset=utf-8''),
                    body_text = None, body_json = Some (JObj []) \<rparr>)
      (ascii ''https://world.openfoodfacts.org/cgi/search.pl'') None
     = (Inr (JObj []), [(ascii ''https://world.openfoodfacts.org/cgi/search.pl'', None)])
   \<and> fetch_json (hostname_is (ascii ''world.openfoodfacts.org''))
      (answer_get \<lparr> status = 200, content_type = Some (ascii ''text/html''),
                    body_text = None, body_json = Some (JObj []) \<rparr>)
      (ascii ''https://world.openfoodfacts.org/cgi/search.pl'') None
     = (Inl ResponseNotJson, [(ascii ''https://world.openfoodfacts.org/cgi/search.pl'', None)])"
proof -
  let ?ok = "\<lparr> status = 200, content_type = Some (ascii ''application/json''),
                    body_text = None, body_json = Some (JObj []) \<rparr>"
  let ?json = "\<lparr> status = 200, content_type = Some (ascii ''application/json; charset=utf-8''),
                    body_text = None, body_json = Some (JObj []) \<rparr>"
  let ?html = "\<lparr> status = 200, content_type = Some (ascii ''text/html''),
                    body_text = None, body_json = Some (JObj []) \<rparr>"
  let ?u = "ascii ''https://world.openfoodfacts.org/cgi/search.pl''"
  let ?w = "hostname_is (ascii ''world.openfoodfacts.org'')"
  have e: "hostname_is (ascii ''evil.com'') (ascii ''https://evil.com/x'') = Some (ascii ''evil.com'')"
    by (simp add: hostname_is_def)
  have h: "?w ?u = Some (ascii ''world.openfoodfacts.org'')" by (simp add: hostname_is_def)
  have i: "includes_str (ascii ''application/json; charset=utf-8'') (ascii ''application/json'')"
    by (simp add: ascii_def)
  have j: "answer_get ?json ?u None = Resolved ?json \<and> ok ?json
      \<and> content_type ?json = Some (ascii ''application/json; charset=utf-8'')
      \<and> body_json ?json = Some (JObj [])"
    by (simp add: answer_get_def ok_def)
  have t: "answer_get ?html ?u None = Resolved ?html \<and> status ?html = 200
      \<and> content_type ?html = Some (ascii ''text/html'')"
    by (simp add: answer_get_def)
  have 1: "fetch_json (hostname_is (ascii ''evil.com'')) (answer_get ?ok) (ascii ''https://evil.com/x'') None
     = (Inl (UrlNotAllowed (ascii ''https://evil.com/x'')), [])"
    using fetch_json_spec[of "hostname_is (ascii ''evil.com'')" "ascii ''https://evil.com/x''"
        "answer_get ?ok" None "JObj []" "[]" ?ok "[]"] e by blast
  have w: "isWhitelisted ?w ?u"
    using fetch_json_spec[of ?w ?u "answer_get ?json" None "JObj []" "[]" ?json
        "ascii ''application/json; charset=utf-8''"] h by blast
  have 2: "fetch_json ?w (answer_get ?json) ?u None = (Inr (JObj []), [(?u, None)])"
    using fetch_json_spec[of ?w ?u "answer_get ?json" None "JObj []" "[]" ?json
        "ascii ''application/json; charset=utf-8''"] w i j by blast
  have 3: "fetch_json ?w (answer_get ?html) ?u None = (Inl ResponseNotJson, [(?u, None)])"
    using fetch_json_spec[of ?w ?u "answer_get ?html" None "JObj []" "[]" ?html "[]"] h t by blast
  from 1 2 3 show ?thesis by simp
qed

section \<open>Normalizing twice\<close>

lemma split_on_cover: "c \<in> set s \<Longrightarrow> P c \<or> (\<exists>seg \<in> set (split_on P s). c \<in> set seg)"
proof (induction s)
  case Nil
  then show ?case by simp
next
  case (Cons a s)
  obtain x xs where sp: "split_on P s = x # xs"
    using split_on_nonempty[of P s] by (cases "split_on P s") auto
  show ?case
  proof (cases "P a")
    case True
    then show ?thesis using Cons by auto
  next
    case False
    show ?thesis
    proof (cases "c = a")
      case True
      then show ?thesis using False sp by simp
    next
      case ne: False
      then have "c \<in> set s" using Cons.prems by simp
      from Cons.IH[OF this] show ?thesis using False sp by auto
    qed
  qed
qed

lemma language_tag_chars:
  assumes "language_tag l"
  shows "l \<noteq> [] \<and> (\<forall>c \<in> set l. tag_char c)"
proof -
  obtain p subtags where sp: "split_on (\<lambda>c. c = 0x2D) l = p # subtags"
    using split_on_nonempty[of "\<lambda>c. c = 0x2D" l] by (cases "split_on (\<lambda>c. c = 0x2D) l") auto
  from assms sp have p: "length p = 2 \<or> length p = 3" "list_all is_az p"
    and s: "list_all (\<lambda>q. 2 \<le> length q \<and> length q \<le> 8 \<and> list_all is_az09 q) subtags"
    by (simp_all add: language_tag_def)
  have "l \<noteq> []"
  proof
    assume "l = []"
    then have "p = []" using sp by simp
    then show False using p(1) by simp
  qed
  moreover have "tag_char c" if c: "c \<in> set l" for c
  proof (cases "c = 0x2D")
    case True
    then show ?thesis by (simp add: tag_char_def)
  next
    case False
    with split_on_cover[OF c, of "\<lambda>c. c = 0x2D"] obtain seg where seg: "seg \<in> set (p # subtags)" "c \<in> set seg"
      using sp by auto
    then have "is_az09 c"
      using p(2) s by (auto simp: list_all_iff is_az09_def)
    then show ?thesis by (simp add: tag_char_def)
  qed
  ultimately show ?thesis by blast
qed

lemma tag_char_facts:
  assumes "tag_char c"
  shows "\<not> isWhiteSpace c" "c < 0x80" "ascii_lower c = c"
proof -
  have r: "(0x61 \<le> c \<and> c \<le> 0x7A) \<or> (0x30 \<le> c \<and> c \<le> 0x39) \<or> c = 0x2D"
    using assms by (auto simp: tag_char_def is_az09_def is_az_def)
  show "c < 0x80" using r by (auto simp: word_le_nat_alt word_less_nat_alt)
  show "ascii_lower c = c" using r by (auto simp: ascii_lower_def word_le_nat_alt)
  show "\<not> isWhiteSpace c"
  proof
    assume "isWhiteSpace c"
    then have "c \<in> set [0x09, 0x0A, 0x0B, 0x0C, 0x0D, 0x20, 0xA0, 0x1680,
     0x2000, 0x2001, 0x2002, 0x2003, 0x2004, 0x2005, 0x2006, 0x2007, 0x2008, 0x2009, 0x200A,
     0x2028, 0x2029, 0x202F, 0x205F, 0x3000, 0xFEFF]" by (simp add: isWhiteSpace_def)
    then show False using r by (auto simp: word_le_nat_alt)
  qed
qed

lemma language_tag_fixed:
  assumes p: "toLowerCase_props lower" and l: "language_tag l"
  shows "normalizeLanguage lower (JStr l) = l"
proof -
  from language_tag_chars[OF l] have ne: "l \<noteq> []" and ch: "\<forall>c \<in> set l. tag_char c" by simp_all
  have "hd l \<in> set l" "last l \<in> set l" using ne by simp_all
  then have "\<not> isWhiteSpace (hd l) \<and> \<not> isWhiteSpace (last l)" using ch tag_char_facts(1) by blast
  then have t: "trim l = l" using trim_fixed_iff[of l] by simp
  have "lower l = map ascii_lower l" using lower_ascii[OF p, of l] ch tag_char_facts(2) by blast
  also have "\<dots> = l" using ch tag_char_facts(3) by (simp add: map_idI)
  finally have lw: "lower l = l" .
  show ?thesis using ne l by (simp add: normalizeLanguage_def t lw)
qed

lemma language_tag_en: "language_tag (ascii ''en'')"
  by (simp add: language_tag_def ascii_def is_az_def)

lemma normalizeLanguage_tag: "language_tag (normalizeLanguage lower v)"
  by (cases v) (auto simp: normalizeLanguage_def Let_def language_tag_en)

lemma normalizeLanguage_idem:
  "toLowerCase_props lower \<Longrightarrow>
     normalizeLanguage lower (JStr (normalizeLanguage lower v)) = normalizeLanguage lower v"
  using language_tag_fixed normalizeLanguage_tag by blast

lemma normalizeDomain_idem: "normalizeDomain (JStr (domain_name (normalizeDomain v))) = normalizeDomain v"
  by (cases "normalizeDomain v") (simp_all add: normalizeDomain_def domain_name_def ascii_def)

lemma nonblank_strings_set: "c \<in> set (nonblank_strings xs) \<Longrightarrow> trim c \<noteq> []"
  by (induction xs rule: nonblank_strings.induct) (auto split: if_splits)

lemma nonblank_strings_fixed: "\<forall>c \<in> set cs. trim c \<noteq> [] \<Longrightarrow> nonblank_strings (map JStr cs) = cs"
  by (induction cs) simp_all

lemma normalizeSections_idem: "normalizeSections (sections_to_js (normalizeSections raw)) = normalizeSections raw"
proof -
  let ?s = "normalizeSections raw"
  have w: "trim w = w \<and> w \<noteq> []" if "warnings ?s = Some w" for w
    using that by (auto simp: normalizeSections_def trim_idem split: if_splits jsval.splits)
  have c: "cs \<noteq> [] \<and> (\<forall>c \<in> set cs. trim c = c \<and> c \<noteq> [])" if "claims ?s = Some cs" for cs
    using that
    by (auto simp: normalizeSections_def Let_def trim_idem split: if_splits jsval.splits
        dest!: nonblank_strings_set)
  have k: "ascii ''claims'' \<noteq> ascii ''warnings''" by (simp add: ascii_def)
  have fixed: "normalizeSections (sections_to_js s) = s"
    if hw: "\<And>w. warnings s = Some w \<Longrightarrow> trim w = w \<and> w \<noteq> []"
      and hc: "\<And>cs. claims s = Some cs \<Longrightarrow> cs \<noteq> [] \<and> (\<forall>c \<in> set cs. trim c = c \<and> c \<noteq> [])"
    for s :: sections
  proof -
    have gw: "get_prop (sections_to_js s) (ascii ''warnings'')
        = (case warnings s of Some w \<Rightarrow> JStr w | None \<Rightarrow> JUndefined)"
      using k by (cases "warnings s"; cases "claims s") (simp_all add: sections_to_js_def)
    have gc: "get_prop (sections_to_js s) (ascii ''claims'')
        = (case claims s of Some cs \<Rightarrow> JArr (map JStr cs) | None \<Rightarrow> JUndefined)"
      using k by (cases "warnings s"; cases "claims s") (simp_all add: sections_to_js_def)
    have t: "truthy (sections_to_js s)" "typeof_object (sections_to_js s)"
      by (simp_all add: sections_to_js_def)
    have nw: "(case get_prop (sections_to_js s) (ascii ''warnings'') of
               JStr w \<Rightarrow> if trim w \<noteq> [] then Some (trim w) else None
             | _ \<Rightarrow> None) = warnings s"
      unfolding gw using hw by (cases "warnings s") auto
    have nc: "(case get_prop (sections_to_js s) (ascii ''claims'') of
               JArr cs \<Rightarrow>
                 (let kept = map trim (nonblank_strings cs)
                  in if length kept > 0 then Some kept else None)
             | _ \<Rightarrow> None) = claims s"
    proof (cases "claims s")
      case None
      then show ?thesis unfolding gc by simp
    next
      case (Some cs)
      from hc[OF Some] have 1: "nonblank_strings (map JStr cs) = cs"
        by (intro nonblank_strings_fixed) auto
      from hc[OF Some] have 2: "map trim cs = cs" by (simp add: map_idI)
      show ?thesis unfolding gc Some using hc[OF Some] by (simp add: 1 2)
    qed
    show ?thesis using t by (simp add: normalizeSections_def nw nc)
  qed
  show ?thesis using fixed[of ?s] w c by blast
qed

lemma normalizeRiskLevel_idem: "normalizeRiskLevel (JStr (risk_level_name r)) = r"
  by (cases r) (simp_all add: normalizeRiskLevel_def risk_level_name_def ascii_def)

lemma source_strings_set: "s \<in> set (source_strings xs) \<Longrightarrow> trim s \<noteq> []"
  by (induction xs rule: source_strings.induct) (auto split: if_splits)

lemma source_strings_fixed: "\<forall>s \<in> set ss. trim s \<noteq> [] \<Longrightarrow> source_strings (map JStr ss) = ss"
  by (induction ss) simp_all

lemma item_to_js_props:
  "get_prop (item_to_js i) (ascii ''name'') = JStr (name i)"
  "get_prop (item_to_js i) (ascii ''function'') = JStr (fn i)"
  "get_prop (item_to_js i) (ascii ''risk_level'') = JStr (risk_level_name (risk_level i))"
  "get_prop (item_to_js i) (ascii ''why'') = JStr (why i)"
  "get_prop (item_to_js i) (ascii ''certainty'') = JNum (Fin (certainty i))"
  "get_prop (item_to_js i) (ascii ''sources'') = JArr (map JStr (sources i))"
  by (simp_all add: item_to_js_def ascii_def)

lemma item_of_entry_idem:
  assumes d: "double_rounding rd" and e: "item_of_entry rd entry = Some i"
  shows "item_of_entry rd (item_to_js i) = Some i"
proof -
  from e have ci: "certainty i = normalizeCertainty rd (get_prop entry (ascii ''certainty''))"
    and si: "sources i = (case get_prop entry (ascii ''sources'') of
                            JArr xs \<Rightarrow> source_strings xs | _ \<Rightarrow> [])"
    by (auto simp: item_of_entry_def split: if_splits)
  have c: "normalizeCertainty rd (JNum (Fin (certainty i))) = certainty i"
    unfolding ci normalizeCertainty_eq by (rule normalizeConfidence_idem[OF d])
  have "\<forall>s \<in> set (sources i). trim s \<noteq> []"
    unfolding si using source_strings_set
    by (cases "get_prop entry (ascii ''sources'')") auto
  then have s: "source_strings (map JStr (sources i)) = sources i" by (rule source_strings_fixed)
  have t: "truthy (item_to_js i)" "typeof_object (item_to_js i)" by (simp_all add: item_to_js_def)
  show ?thesis using t by (simp add: item_of_entry_def item_to_js_props c s normalizeRiskLevel_idem)
qed

lemma map_filter_inverse: "\<forall>x \<in> set xs. f (g x) = Some x \<Longrightarrow> List.map_filter f (map g xs) = xs"
  by (induction xs) (simp_all add: List.map_filter_simps)

lemma normalizeItems_mem:
  "i \<in> set (normalizeItems rd raw) \<Longrightarrow> \<exists>entry. item_of_entry rd entry = Some i"
  by (cases raw) (auto simp: normalizeItems_def List.map_filter_def)

lemma normalizeItems_idem:
  assumes d: "double_rounding rd"
  shows "normalizeItems rd (JArr (map item_to_js (normalizeItems rd raw))) = normalizeItems rd raw"
proof -
  have "\<forall>i \<in> set (normalizeItems rd raw). item_of_entry rd (item_to_js i) = Some i"
    using normalizeItems_mem item_of_entry_idem[OF d] by blast
  then show ?thesis by (simp add: normalizeItems_def map_filter_inverse)
qed

lemma capped_confidence_fixed:
  assumes d: "double_rounding rd"
  shows "normalizeConfidence rd (JNum (Fin (min (normalizeConfidence rd v) (rd (1 / 5)))))
           = min (normalizeConfidence rd v) (rd (1 / 5))"
proof -
  have "normalizeConfidence rd (JNum (Fin (rd (of_int 200 / 1000)))) = rd (of_int 200 / 1000)"
    by (rule normalizeConfidence_thousandth[OF d]) simp_all
  then have f: "normalizeConfidence rd (JNum (Fin (rd (1 / 5)))) = rd (1 / 5)" by simp
  show ?thesis using f normalizeConfidence_idem[OF d, of v] by (simp add: min_def)
qed

lemma result_to_js_props:
  "get_prop (result_to_js r) (ascii ''domain_guess'') = JStr (domain_name (domain_guess r))"
  "get_prop (result_to_js r) (ascii ''ingredients'') = JArr (map JStr (ingredients r))"
  "get_prop (result_to_js r) (ascii ''sections'') = sections_to_js (sections r)"
  "get_prop (result_to_js r) (ascii ''confidence'') = JNum (Fin (confidence r))"
  "get_prop (result_to_js r) (ascii ''language'') = JStr (language r)"
  by (simp_all add: result_to_js_def ascii_def)

lemma result_of_raw_idem:
  assumes p: "toLowerCase_props lower" and d: "double_rounding rd"
  shows "result_of_raw lower rd (result_to_js (result_of_raw lower rd raw)) = result_of_raw lower rd raw"
proof -
  let ?i = "normalizeIngredients lower (get_prop raw (ascii ''ingredients''))"
  let ?c = "normalizeConfidence rd (get_prop raw (ascii ''confidence''))"
  show ?thesis
  proof (cases "?i = []")
    case True
    then have r: "result_of_raw lower rd raw =
        \<lparr> domain_guess = normalizeDomain (get_prop raw (ascii ''domain_guess'')),
          ingredients = [],
          sections = normalizeSections (get_prop raw (ascii ''sections'')),
          confidence = min ?c (rd (1 / 5)),
          language = normalizeLanguage lower (get_prop raw (ascii ''language'')) \<rparr>"
      by (simp add: result_of_raw_def Let_def)
    have e: "normalizeIngredients lower (JArr []) = []"
      by (simp add: normalizeIngredients_def array_from_set_def)
    show ?thesis unfolding r
      by (simp add: result_of_raw_def[of lower rd "result_to_js _"] Let_def result_to_js_props e
          normalizeDomain_idem normalizeSections_idem normalizeLanguage_idem[OF p]
          capped_confidence_fixed[OF d])
  next
    case False
    then have r: "result_of_raw lower rd raw =
        \<lparr> domain_guess = normalizeDomain (get_prop raw (ascii ''domain_guess'')),
          ingredients = ?i,
          sections = normalizeSections (get_prop raw (ascii ''sections'')),
          confidence = ?c,
          language = normalizeLanguage lower (get_prop raw (ascii ''language'')) \<rparr>"
      by (simp add: result_of_raw_def Let_def)
    show ?thesis unfolding r using False
      by (simp add: result_of_raw_def[of lower rd "result_to_js _"] Let_def result_to_js_props
          normalizeDomain_idem normalizeSections_idem normalizeLanguage_idem[OF p]
          normalizeIngredients_idem[OF p] normalizeConfidence_idem[OF d])
  qed
qed

text \<open>
  Claim C9. Each normalizer of the extraction result (domain, ingredients, sections,
  confidence, language), applied to the JSON form of its own output, returns that output
  again; so does the construction of the whole extraction result, with its cap on the
  confidence, and so does \<open>normalizeItems\<close> on the JSON form of a normalized item list.
\<close>

theorem normalizers_idempotent:
  assumes p: "toLowerCase_props lower" and d: "double_rounding rd"
  shows "normalizeDomain (JStr (domain_name (normalizeDomain v))) = normalizeDomain v
    \<and> normalizeIngredients lower (JArr (map JStr (normalizeIngredients lower v)))
        = normalizeIngredients lower v
    \<and> normalizeSections (sections_to_js (normalizeSections v)) = normalizeSections v
    \<and> normalizeConfidence rd (JNum (Fin (normalizeConfidence rd v))) = normalizeConfidence rd v
    \<and> normalizeLanguage lower (JStr (normalizeLanguage lower v)) = normalizeLanguage lower v
    \<and> result_of_raw lower rd (result_to_js (result_of_raw lower rd raw)) = result_of_raw lower rd raw
    \<and> normalizeItems rd (JArr (map item_to_js (normalizeItems rd raw))) = normalizeItems rd raw"
  using normalizeDomain_idem normalizeIngredients_idem[OF p] normalizeSections_idem
    normalizeConfidence_idem[OF d] normalizeLanguage_idem[OF p] result_of_raw_idem[OF p d]
    normalizeItems_idem[OF d]
  by simp

theorem normalizers_idempotent_witness:
  "toLowerCase_props lower_ascii_text \<and> double_rounding exact_rounding
   \<and> normalizeLanguage lower_ascii_text (JStr (ascii '' EN-us '')) = ascii ''en-us''
   \<and> normalizeLanguage lower_ascii_text (JStr (ascii ''en-us'')) = ascii ''en-us''
   \<and> normalizeConfidence exact_rounding (JNum (Fin (8766 / 10000))) = 877 / 1000
   \<and> normalizeConfidence exact_rounding (JNum (Fin (877 / 1000))) = 877 / 1000"
proof -
  have l: "normalizeLanguage lower_ascii_text (JStr (ascii '' EN-us '')) = ascii ''en-us''"
    by (simp add: normalizeLanguage_def trim_def isWhiteSpace_def ascii_def lower_ascii_text_def
        ascii_lower_def language_tag_def is_az_def is_az09_def)
  have c: "normalizeConfidence exact_rounding (JNum (Fin (8766 / 10000))) = 877 / 1000"
    by (simp add: normalizeConfidence_def toFixed3_def exact_rounding_def floor_rat_numeral)
  show ?thesis
    using normalizers_idempotent[OF toLowerCase_props_lower_ascii_text double_rounding_exact,
        of "JStr (ascii '' EN-us '')"]
      normalizers_idempotent[OF toLowerCase_props_lower_ascii_text double_rounding_exact,
        of "JNum (Fin (8766 / 10000))"]
      toLowerCase_props_lower_ascii_text double_rounding_exact
    unfolding l c by simp
qed

end
